theory Spec2Isabelle
  imports Main "HOL-Library.Multiset" "HOL-Library.List_Lexorder" "HOL-Library.Char_ord"
begin

section \<open>Data model\<close>

text \<open>
  Strings of the service are lists of code units; the ordering on \<^typ>\<open>string\<close> is the
  lexicographic ordering by code unit, which is what the relational operators of the source
  language compute on strings. The development covers code units below 256.

  \<^verbatim>\<open>type DividendHistory = { exDividendDate; cashAmount; recordDate; payDate }\<close>
\<close>

record DividendHistory =
  exDividendDate :: string
  cashAmount :: string
  recordDate :: string
  payDate :: string

section \<open>Array.prototype.sort with a comparison function\<close>

text \<open>
  The platform's sort is stable and orders by the sign of the comparison function.
  It is modelled by stable insertion: an element goes in front of the first element
  it does not have to follow.
\<close>

fun insort_cmp :: "('a \<Rightarrow> 'a \<Rightarrow> int) \<Rightarrow> 'a \<Rightarrow> 'a list \<Rightarrow> 'a list" where
  "insort_cmp cmp x [] = [x]"
| "insort_cmp cmp x (y # ys) =
     (if cmp x y \<le> 0 then x # y # ys else y # insort_cmp cmp x ys)"

definition Array_sort :: "('a \<Rightarrow> 'a \<Rightarrow> int) \<Rightarrow> 'a list \<Rightarrow> 'a list" where
  "Array_sort cmp xs = foldr (insort_cmp cmp) xs []"

text \<open>
  \<^verbatim>\<open>(a, b) => b.exDividendDate.localeCompare(a.exDividendDate)\<close>; the collation
  \<open>localeCompare\<close> belongs to the platform and is a parameter \<open>lc\<close> of the model.
\<close>

definition byExDateDesc ::
  "(string \<Rightarrow> string \<Rightarrow> int) \<Rightarrow> DividendHistory \<Rightarrow> DividendHistory \<Rightarrow> int" where
  "byExDateDesc lc a b = lc (exDividendDate b) (exDividendDate a)"

text \<open>A consistent comparison: antisymmetric in sign and transitive.\<close>

definition consistentComparator :: "('k \<Rightarrow> 'k \<Rightarrow> int) \<Rightarrow> bool" where
  "consistentComparator lc \<longleftrightarrow>
     (\<forall>a b. sgn (lc a b) = - sgn (lc b a)) \<and>
     (\<forall>a b c. lc a b \<le> 0 \<longrightarrow> lc b c \<le> 0 \<longrightarrow> lc a c \<le> 0)"

text \<open>The comparison by code unit, a collation that is consistent.\<close>

definition codeUnitCompare :: "string \<Rightarrow> string \<Rightarrow> int" where
  "codeUnitCompare a b = (if a < b then - 1 else if b < a then 1 else 0)"

text \<open>Descending by ex-dividend date under the collation: no later record is larger.\<close>

definition sortedDesc :: "(string \<Rightarrow> string \<Rightarrow> int) \<Rightarrow> DividendHistory list \<Rightarrow> bool" where
  "sortedDesc lc xs = sorted_wrt (\<lambda>a b. byExDateDesc lc a b \<le> 0) xs"

text \<open>
  Descending by ex-dividend date as the specification words it, stated on the dates and not
  through the comparison function of the sort: under the collation, the date of a record is
  not smaller than the date of any record after it.
\<close>

definition descendingBy :: "(string \<Rightarrow> string \<Rightarrow> int) \<Rightarrow> DividendHistory list \<Rightarrow> bool" where
  "descendingBy lc xs =
     sorted_wrt (\<lambda>a b. 0 \<le> lc (exDividendDate a) (exDividendDate b)) xs"

section \<open>Merge engine\<close>

text \<open>
  \<^verbatim>\<open>
  mergeDividends(existing, newData) {
    if (existing.length === 0)
      return newData.sort((a, b) => b.exDividendDate.localeCompare(a.exDividendDate));
    const latestExistingDate = existing[0].exDividendDate;
    const newerEntries = newData.filter(d => d.exDividendDate > latestExistingDate);
    const merged = [...newerEntries, ...existing];
    return merged.sort((a, b) => b.exDividendDate.localeCompare(a.exDividendDate));
  }\<close>
\<close>

definition newerEntries :: "string \<Rightarrow> DividendHistory list \<Rightarrow> DividendHistory list" where
  "newerEntries latestExistingDate newData =
     filter (\<lambda>d. exDividendDate d > latestExistingDate) newData"

fun mergeDividends ::
  "(string \<Rightarrow> string \<Rightarrow> int) \<Rightarrow> DividendHistory list \<Rightarrow> DividendHistory list
     \<Rightarrow> DividendHistory list" where
  "mergeDividends lc [] newData = Array_sort (byExDateDesc lc) newData"
| "mergeDividends lc (e # es) newData =
     Array_sort (byExDateDesc lc) (newerEntries (exDividendDate e) newData @ (e # es))"

text \<open>
  The merge as the specification words it: with no existing history the harvested records
  are the input of the sort; otherwise the harvested records whose date is strictly greater
  than the date of the first existing record, followed by all existing records.
\<close>

definition mergeInput :: "DividendHistory list \<Rightarrow> DividendHistory list \<Rightarrow> DividendHistory list" where
  "mergeInput existing harvested =
     (if existing = [] then harvested
      else filter (\<lambda>d. exDividendDate (existing ! 0) < exDividendDate d) harvested @ existing)"

text \<open>The harvested records the merge admits.\<close>

definition admitted :: "DividendHistory list \<Rightarrow> DividendHistory list \<Rightarrow> DividendHistory list" where
  "admitted existing harvested =
     (if existing = [] then harvested
      else filter (\<lambda>d. exDividendDate (existing ! 0) < exDividendDate d) harvested)"

text \<open>Strictly descending by code unit, the invariant of a stored history.\<close>

definition strictlyDesc :: "DividendHistory list \<Rightarrow> bool" where
  "strictlyDesc xs = sorted_wrt (\<lambda>a b. exDividendDate b < exDividendDate a) xs"

text \<open>Sample records.\<close>

definition rec_sep :: DividendHistory where
  "rec_sep = \<lparr>exDividendDate = ''2025-09-01'', cashAmount = ''$0.30'',
     recordDate = ''2025-09-01'', payDate = ''2025-09-02''\<rparr>"

definition rec_oct :: DividendHistory where
  "rec_oct = \<lparr>exDividendDate = ''2025-10-01'', cashAmount = ''$0.10'',
     recordDate = ''2025-10-01'', payDate = ''2025-10-02''\<rparr>"

definition rec_nov :: DividendHistory where
  "rec_nov = \<lparr>exDividendDate = ''2025-11-01'', cashAmount = ''$0.20'',
     recordDate = ''2025-11-01'', payDate = ''2025-11-02''\<rparr>"

definition rec_dec :: DividendHistory where
  "rec_dec = \<lparr>exDividendDate = ''2025-12-01'', cashAmount = ''$0.25'',
     recordDate = ''2025-12-01'', payDate = ''2025-12-02''\<rparr>"

definition rec_nov_special :: DividendHistory where
  "rec_nov_special = \<lparr>exDividendDate = ''2025-11-01'', cashAmount = ''$1.00'',
     recordDate = ''2025-11-01'', payDate = ''2025-11-02''\<rparr>"

lemmas sample_defs = rec_sep_def rec_oct_def rec_nov_def rec_dec_def rec_nov_special_def

lemmas merge_eval = newerEntries_def Array_sort_def byExDateDesc_def codeUnitCompare_def
  mergeInput_def admitted_def sortedDesc_def strictlyDesc_def

section \<open>Strings\<close>

definition dquote :: char where "dquote = CHR 0x22"
definition comma :: char where "comma = CHR '',''"
definition newline :: char where "newline = CHR 0x0A"

text \<open>
  White space and line terminators, as \<^verbatim>\<open>String.prototype.trim\<close> strips them, among the
  code units below 256: tab, line feed, vertical tab, form feed, carriage return, space and
  no-break space.
\<close>

definition isWhiteSpace :: "char \<Rightarrow> bool" where
  "isWhiteSpace c \<longleftrightarrow>
     c \<in> set [CHR 0x09, CHR 0x0A, CHR 0x0B, CHR 0x0C, CHR 0x0D, CHR 0x20, CHR 0xA0]"

definition trim :: "string \<Rightarrow> string" where
  "trim s = rev (dropWhile isWhiteSpace (rev (dropWhile isWhiteSpace s)))"

text \<open>
  \<^verbatim>\<open>s.split(sep)\<close> for a separator of one code unit: the pieces between the separators,
  at least one piece. The result of the recursive call is never empty; the first case of the
  inner \<open>case\<close> only makes the function total.
\<close>

fun split :: "char \<Rightarrow> string \<Rightarrow> string list" where
  "split sep [] = [[]]"
| "split sep (c # cs) =
     (if c = sep then [] # split sep cs
      else (case split sep cs of [] \<Rightarrow> [[c]] | l # ls \<Rightarrow> (c # l) # ls))"

text \<open>\<^verbatim>\<open>xs.join(sep)\<close>\<close>

fun joinWith :: "string \<Rightarrow> string list \<Rightarrow> string" where
  "joinWith sep [] = []"
| "joinWith sep [x] = x"
| "joinWith sep (x # y # ys) = x @ sep @ joinWith sep (y # ys)"

section \<open>Delimited-text codec\<close>

text \<open>
  \<^verbatim>\<open>
  const escapeCsv = (value: string) => {
    if (value.includes(',') || value.includes('"') || value.includes('\n'))
      return `"${value.replace(/"/g, '""')}"`;
    return value;
  };\<close>
\<close>

definition escapeCsv :: "string \<Rightarrow> string" where
  "escapeCsv v =
     (if comma \<in> set v \<or> dquote \<in> set v \<or> newline \<in> set v
      then [dquote] @ concat (map (\<lambda>c. if c = dquote then [dquote, dquote] else [c]) v) @ [dquote]
      else v)"

definition csvRow :: "DividendHistory \<Rightarrow> string" where
  "csvRow d = joinWith [comma]
     [escapeCsv (exDividendDate d), escapeCsv (cashAmount d),
      escapeCsv (recordDate d), escapeCsv (payDate d)]"

definition csvHeader :: string where
  "csvHeader = ''Ex-Dividend Date,Cash Amount,Record Date,Pay Date'' @ [newline]"

text \<open>\<^verbatim>\<open>const csvContent = header + rows.join('\n');\<close>\<close>

definition csvContent :: "DividendHistory list \<Rightarrow> string" where
  "csvContent dividends = csvHeader @ joinWith [newline] (map csvRow dividends)"

text \<open>
  \<^verbatim>\<open>
  parseCsvLine(line) {
    const values = []; let current = ''; let inQuotes = false;
    for (let i = 0; i < line.length; i++) {
      const char = line[i];
      if (char === '"') inQuotes = !inQuotes;
      else if (char === ',' && !inQuotes) { values.push(current.trim()); current = ''; }
      else current += char;
    }
    if (current) values.push(current.trim());
    return values;
  }\<close>
\<close>

fun parseCsvLoop :: "string list \<Rightarrow> string \<Rightarrow> bool \<Rightarrow> string \<Rightarrow> string list" where
  "parseCsvLoop vals current inQuotes [] =
     (if current \<noteq> [] then vals @ [trim current] else vals)"
| "parseCsvLoop vals current inQuotes (c # rest) =
     (if c = dquote then parseCsvLoop vals current (\<not> inQuotes) rest
      else if c = comma \<and> \<not> inQuotes then parseCsvLoop (vals @ [trim current]) [] inQuotes rest
      else parseCsvLoop vals (current @ [c]) inQuotes rest)"

definition parseCsvLine :: "string \<Rightarrow> string list" where
  "parseCsvLine line = parseCsvLoop [] [] False line"

text \<open>
  The body of \<^verbatim>\<open>readExistingCsv\<close> once the file is read: the loop over the lines after the
  header, and the function of the content.
  \<^verbatim>\<open>
  const lines = content.split('\n').filter(line => line.trim());
  if (lines.length < 2) return [];
  for (let i = 1; i < lines.length; i++) {
    const line = lines[i].trim();
    if (!line) continue;
    const values = this.parseCsvLine(line);
    if (values.length >= 4) dividends.push({ exDividendDate: values[0], cashAmount: values[1],
                                              recordDate: values[2], payDate: values[3] });
  }\<close>
\<close>

fun recordsOfLines :: "string list \<Rightarrow> DividendHistory list" where
  "recordsOfLines [] = []"
| "recordsOfLines (l # ls) =
     (let line = trim l in
      if line = [] then recordsOfLines ls
      else let vals = parseCsvLine line in
        if length vals \<ge> 4
        then \<lparr>exDividendDate = vals ! 0, cashAmount = vals ! 1,
              recordDate = vals ! 2, payDate = vals ! 3\<rparr> # recordsOfLines ls
        else recordsOfLines ls)"

definition parseCsvContent :: "string \<Rightarrow> DividendHistory list" where
  "parseCsvContent content =
     (let lines = filter (\<lambda>line. trim line \<noteq> []) (split newline content) in
      if length lines < 2 then [] else recordsOfLines (tl lines))"

lemmas codec_eval = dquote_def comma_def newline_def isWhiteSpace_def trim_def escapeCsv_def
  csvRow_def csvHeader_def csvContent_def parseCsvLine_def parseCsvContent_def

text \<open>A line that \<^verbatim>\<open>filter(line => line.trim())\<close> keeps.\<close>

definition nonBlank :: "string \<Rightarrow> bool" where
  "nonBlank line \<longleftrightarrow> trim line \<noteq> []"

text \<open>The records decoded from the lines of one encoded row.\<close>

definition rowRecords :: "string \<Rightarrow> DividendHistory list" where
  "rowRecords row = recordsOfLines (filter nonBlank (split newline row))"

text \<open>A field that is not empty and holds no comma, double quote or line feed.\<close>

definition plainField :: "string \<Rightarrow> bool" where
  "plainField f \<longleftrightarrow> f \<noteq> [] \<and> comma \<notin> set f \<and> dquote \<notin> set f \<and> newline \<notin> set f"

text \<open>
  More sample records: one without a pay date, one whose amount is
  \<^verbatim>\<open>$0.50 "special"\<close>, one whose amount has a line feed after \<^verbatim>\<open>$0.50\<close>, one whose amount
  has a comma.
\<close>

definition rec_no_payDate :: DividendHistory where
  "rec_no_payDate = \<lparr>exDividendDate = ''2025-12-01'', cashAmount = ''$0.40'',
     recordDate = ''2025-12-01'', payDate = ''''\<rparr>"

definition rec_quoted :: DividendHistory where
  "rec_quoted = \<lparr>exDividendDate = ''2025-12-01'',
     cashAmount = ''$0.50 '' @ dquote # ''special'' @ [dquote],
     recordDate = ''2025-12-01'', payDate = ''2025-12-02''\<rparr>"

definition rec_multiline :: DividendHistory where
  "rec_multiline = \<lparr>exDividendDate = ''2025-12-01'',
     cashAmount = ''$0.50'' @ newline # ''special'',
     recordDate = ''2025-12-01'', payDate = ''2025-12-02''\<rparr>"

definition rec_comma :: DividendHistory where
  "rec_comma = \<lparr>exDividendDate = ''2025-12-01'', cashAmount = ''$1,000.50'',
     recordDate = ''2025-12-01'', payDate = ''2025-12-02''\<rparr>"

lemmas row_eval = rowRecords_def nonBlank_def csvRow_def escapeCsv_def parseCsvLine_def trim_def
  isWhiteSpace_def dquote_def comma_def newline_def

section \<open>Record normalizer\<close>

text \<open>
  What the platform's \<^verbatim>\<open>Date\<close> gives for a string: no date at all (\<^verbatim>\<open>getTime()\<close> is NaN) or
  the local calendar fields that \<^verbatim>\<open>getFullYear()\<close>, \<^verbatim>\<open>getMonth()\<close> (from 0) and
  \<^verbatim>\<open>getDate()\<close> read. Parsing belongs to the platform: it is a parameter \<open>newDate\<close>, and
  \<open>Inl\<close> stands for an error thrown inside the \<^verbatim>\<open>try\<close> block.
\<close>

record JsDate =
  getFullYear :: int
  getMonth :: nat
  getDate :: nat

definition digitChar :: "nat \<Rightarrow> char" where
  "digitChar d = ''0123456789'' ! d"

text \<open>\<^verbatim>\<open>String(n)\<close> for a natural number and for an integer.\<close>

fun natToString :: "nat \<Rightarrow> string" where
  "natToString n =
     (if n < 10 then [digitChar n] else natToString (n div 10) @ [digitChar (n mod 10)])"

declare natToString.simps [simp del]

definition numberToString :: "int \<Rightarrow> string" where
  "numberToString i =
     (if i < 0 then CHR ''-'' # natToString (nat (- i)) else natToString (nat i))"

definition padStart :: "nat \<Rightarrow> char \<Rightarrow> string \<Rightarrow> string" where
  "padStart n c s = replicate (n - length s) c @ s"

text \<open>
  \<^verbatim>\<open>
  formatDateToIso(dateStr) {
    if (!dateStr || !dateStr.trim()) return dateStr;
    try {
      const date = new Date(dateStr.trim());
      if (isNaN(date.getTime())) return dateStr;
      const year = date.getFullYear();
      const month = String(date.getMonth() + 1).padStart(2, '0');
      const day = String(date.getDate()).padStart(2, '0');
      return `${year}-${month}-${day}`;
    } catch (error) { return dateStr; }
  }\<close>
\<close>

definition formatDateToIso :: "(string \<Rightarrow> string + JsDate option) \<Rightarrow> string \<Rightarrow> string" where
  "formatDateToIso newDate dateStr =
     (if dateStr = [] \<or> trim dateStr = [] then dateStr
      else case newDate (trim dateStr) of
        Inl err \<Rightarrow> dateStr
      | Inr None \<Rightarrow> dateStr
      | Inr (Some date) \<Rightarrow>
          (let year = getFullYear date;
               month = padStart 2 (CHR ''0'') (natToString (getMonth date + 1));
               day = padStart 2 (CHR ''0'') (natToString (getDate date))
           in numberToString year @ ''-'' @ month @ ''-'' @ day))"

text \<open>Two and four decimal digits, with leading zeros.\<close>

definition twoDigits :: "nat \<Rightarrow> string" where
  "twoDigits n = [digitChar (n div 10), digitChar (n mod 10)]"

definition fourDigits :: "nat \<Rightarrow> string" where
  "fourDigits n = [digitChar (n div 1000), digitChar (n div 100 mod 10),
                   digitChar (n div 10 mod 10), digitChar (n mod 10)]"

text \<open>A sample of the platform's date parsing, for concrete runs.\<close>

definition sampleNewDate :: "string \<Rightarrow> string + JsDate option" where
  "sampleNewDate s =
     (if s = ''Oct 31, 2025'' then Inr (Some \<lparr>getFullYear = 2025, getMonth = 9, getDate = 31\<rparr>)
      else if s = ''Sep 5, 2025'' then Inr (Some \<lparr>getFullYear = 2025, getMonth = 8, getDate = 5\<rparr>)
      else if s = ''Nov 3, 2025'' then Inr (Some \<lparr>getFullYear = 2025, getMonth = 10, getDate = 3\<rparr>)
      else if s = ''Jan 1, 0500'' then Inr (Some \<lparr>getFullYear = 500, getMonth = 0, getDate = 1\<rparr>)
      else if s = ''throws'' then Inl ''RangeError''
      else Inr None)"

lemmas date_eval = formatDateToIso_def sampleNewDate_def trim_def isWhiteSpace_def Let_def
  padStart_def numberToString_def natToString.simps digitChar_def twoDigits_def fourDigits_def

section \<open>The service: exceptions, the platform and the state\<close>

text \<open>The two exception classes the service throws; \<open>exceptionMessage\<close> reads \<^verbatim>\<open>error.message\<close>.\<close>

datatype HttpException = BadRequestException string | InternalServerErrorException string

fun exceptionMessage :: "HttpException \<Rightarrow> string" where
  "exceptionMessage (BadRequestException m) = m"
| "exceptionMessage (InternalServerErrorException m) = m"

text \<open>
  An error thrown while the page is fetched and loaded: \<^verbatim>\<open>err?.response?.status\<close>
  (absent when there was no response: a transport failure or the 15 second timeout) and
  \<^verbatim>\<open>err?.message\<close> (empty when absent).
\<close>

record AxiosError =
  status :: "nat option"
  message :: string

text \<open>
  A loaded page, as the two selections of the harvester see it: for each table under a
  table-wrap container the texts of the cells of each of its body rows, and the texts of the
  cells of every body row of any table.
\<close>

record Document =
  tableWrapTables :: "string list list list"
  tableBodyRows :: "string list list"

text \<open>\<^verbatim>\<open>type CacheEntry = { expiresAtMs: number; data: DividendHistory[] }\<close>\<close>

record CacheEntry =
  expiresAtMs :: int
  data :: "DividendHistory list"

text \<open>
  Functions of the platform that the service calls and that are parameters of the model:
  the collation, date parsing, case mapping, \<^verbatim>\<open>path.join\<close>, the working directory, and the
  message of the error of reading a file that cannot be read.
\<close>

record Platform =
  localeCompare :: "string \<Rightarrow> string \<Rightarrow> int"
  newDate :: "string \<Rightarrow> string + JsDate option"
  toUpperCase :: "string \<Rightarrow> string"
  toLowerCase :: "string \<Rightarrow> string"
  pathJoin :: "string list \<Rightarrow> string"
  cwd :: string
  readFileError :: "string \<Rightarrow> string"

text \<open>
  What the outside answers during one request: the clock \<^verbatim>\<open>Date.now()\<close>, the upstream for a
  URL, and whether creating the directory and writing a file at a path throws.
\<close>

record World =
  dateNow :: int
  axiosGet :: "string \<Rightarrow> AxiosError + Document"
  writeFails :: "string \<Rightarrow> bool"

text \<open>
  The state: the cache of the service, its time to live (\<^verbatim>\<open>defaultTtlMs\<close>, a field that
  the constructor sets to one hour), and the files.
\<close>

record Service =
  cache :: "string \<rightharpoonup> CacheEntry"
  defaultTtlMs :: int
  files :: "string \<rightharpoonup> string"

definition newService :: "(string \<rightharpoonup> string) \<Rightarrow> Service" where
  "newService fs = \<lparr>cache = Map.empty, defaultTtlMs = 60 * 60 * 1000, files = fs\<rparr>"

section \<open>Time-bounded cache\<close>

text \<open>
  \<^verbatim>\<open>const cached = this.cache.get(key); if (cached && cached.expiresAtMs > now) ... cached.data\<close>
  and
  \<^verbatim>\<open>this.cache.set(key, { expiresAtMs: now + this.defaultTtlMs, data })\<close>
\<close>

definition cacheGet :: "Service \<Rightarrow> int \<Rightarrow> string \<Rightarrow> DividendHistory list option" where
  "cacheGet s now key =
     (case cache s key of
        None \<Rightarrow> None
      | Some cached \<Rightarrow> if expiresAtMs cached > now then Some (data cached) else None)"

definition cacheSet :: "Service \<Rightarrow> int \<Rightarrow> string \<Rightarrow> DividendHistory list \<Rightarrow> Service" where
  "cacheSet s now key d =
     s\<lparr>cache := (cache s)(key \<mapsto> \<lparr>expiresAtMs = now + defaultTtlMs s, data = d\<rparr>)\<rparr>"

section \<open>Persisted history store\<close>

text \<open>A string is truthy when it is present and not empty.\<close>

fun truthy :: "string option \<Rightarrow> bool" where
  "truthy None = False"
| "truthy (Some s) = (s \<noteq> [])"

text \<open>
  \<^verbatim>\<open>
  const baseDir = outputDir ? join(process.cwd(), outputDir) : join(process.cwd(), 'src', 'data');
  const filename = `${ticker.toLowerCase()}_dividends.csv`;
  const filePath = join(baseDir, filename);\<close>
\<close>

definition baseDir :: "Platform \<Rightarrow> string option \<Rightarrow> string" where
  "baseDir P outputDir =
     (if truthy outputDir then pathJoin P [cwd P, the outputDir]
      else pathJoin P [cwd P, ''src'', ''data''])"

definition filePath :: "Platform \<Rightarrow> string \<Rightarrow> string option \<Rightarrow> string" where
  "filePath P ticker outputDir =
     pathJoin P [baseDir P outputDir, toLowerCase P ticker @ ''_dividends.csv'']"

text \<open>\<^verbatim>\<open>csvExists\<close>: \<^verbatim>\<open>access\<close> throws for a missing file, and the function returns false.\<close>

definition csvExists :: "Platform \<Rightarrow> Service \<Rightarrow> string \<Rightarrow> string option \<Rightarrow> bool" where
  "csvExists P s ticker outputDir = (files s (filePath P ticker outputDir) \<noteq> None)"

text \<open>\<^verbatim>\<open>readExistingCsv\<close>: any error of reading gives the empty history.\<close>

definition readExistingCsv ::
  "Platform \<Rightarrow> Service \<Rightarrow> string \<Rightarrow> string option \<Rightarrow> DividendHistory list" where
  "readExistingCsv P s ticker outputDir =
     (case files s (filePath P ticker outputDir) of
        None \<Rightarrow> []
      | Some content \<Rightarrow> parseCsvContent content)"

text \<open>
  \<^verbatim>\<open>saveToCsv\<close>: the file gets the encoded history; an error of \<^verbatim>\<open>mkdir\<close> or
  \<^verbatim>\<open>writeFile\<close> is caught and logged, and nothing is written.
\<close>

definition saveToCsv ::
  "Platform \<Rightarrow> World \<Rightarrow> Service \<Rightarrow> string \<Rightarrow> DividendHistory list \<Rightarrow> string option \<Rightarrow> Service" where
  "saveToCsv P w s ticker dividends outputDir =
     (let path = filePath P ticker outputDir in
      if writeFails w path then s
      else s\<lparr>files := (files s)(path \<mapsto> csvContent dividends)\<rparr>)"

section \<open>History harvester\<close>

definition isDigit :: "char \<Rightarrow> bool" where
  "isDigit c \<longleftrightarrow> (48::nat) \<le> of_char c \<and> of_char c \<le> (57::nat)"

definition isAlpha :: "char \<Rightarrow> bool" where
  "isAlpha c \<longleftrightarrow> ((65::nat) \<le> of_char c \<and> of_char c \<le> (90::nat)) \<or>
                  ((97::nat) \<le> of_char c \<and> of_char c \<le> (122::nat))"

text \<open>\<^verbatim>\<open>re.test(s)\<close> for a pattern without anchors: the pattern matches at some position.\<close>

fun regexTest :: "(string \<Rightarrow> bool) \<Rightarrow> string \<Rightarrow> bool" where
  "regexTest p [] = p []"
| "regexTest p (c # cs) = (p (c # cs) \<or> regexTest p cs)"

text \<open>\<^verbatim>\<open>\s+\<close> in front of something that is not white space: what follows the white space.\<close>

definition spaces1 :: "string \<Rightarrow> string option" where
  "spaces1 s =
     (case s of [] \<Rightarrow> None
      | c # cs \<Rightarrow> if isWhiteSpace c then Some (dropWhile isWhiteSpace cs) else None)"

text \<open>\<^verbatim>\<open>\d{1,2},\<close>: one or two digits and a comma; what follows the comma.\<close>

fun dayComma :: "string \<Rightarrow> string option" where
  "dayComma (a # b # c # rest) =
     (if isDigit a \<and> b = comma then Some (c # rest)
      else if isDigit a \<and> isDigit b \<and> c = comma then Some rest
      else None)"
| "dayComma [a, b] = (if isDigit a \<and> b = comma then Some [] else None)"
| "dayComma _ = None"

fun digits4 :: "string \<Rightarrow> bool" where
  "digits4 (a # b # c # d # rest) = (isDigit a \<and> isDigit b \<and> isDigit c \<and> isDigit d)"
| "digits4 _ = False"

text \<open>\<^verbatim>\<open>/[A-Za-z]{3}\s+\d{1,2},\s+\d{4}/\<close> at the start of a string.\<close>

fun datePattern :: "string \<Rightarrow> bool" where
  "datePattern (a # b # c # rest) =
     (isAlpha a \<and> isAlpha b \<and> isAlpha c \<and>
      (case spaces1 rest of None \<Rightarrow> False
       | Some r1 \<Rightarrow> (case dayComma r1 of None \<Rightarrow> False
          | Some r2 \<Rightarrow> (case spaces1 r2 of None \<Rightarrow> False
             | Some r3 \<Rightarrow> digits4 r3))))"
| "datePattern _ = False"

text \<open>\<^verbatim>\<open>/\$?\d+\.\d+/\<close> at the start of a string.\<close>

definition amountPattern :: "string \<Rightarrow> bool" where
  "amountPattern s =
     (let r = (case s of [] \<Rightarrow> [] | c # cs \<Rightarrow> if c = CHR ''$'' then cs else c # cs) in
      takeWhile isDigit r \<noteq> [] \<and>
      (case dropWhile isDigit r of
         c # d # rest \<Rightarrow> c = CHR ''.'' \<and> isDigit d
       | _ \<Rightarrow> False))"

text \<open>
  A row of the first selection: at least four cells, the first two not empty once trimmed.
  \<^verbatim>\<open>
  if (cells.length >= 4) {
    const exDividendDate = $(cells[0]).text().trim(); ... const payDate = $(cells[3]).text().trim();
    if (exDividendDate && cashAmount)
      dividends.push({ exDividendDate: this.formatDateToIso(exDividendDate), cashAmount,
                       recordDate: this.formatDateToIso(recordDate),
                       payDate: this.formatDateToIso(payDate) });
  }\<close>
\<close>

definition normalizedRecord :: "Platform \<Rightarrow> string list \<Rightarrow> DividendHistory" where
  "normalizedRecord P cells =
     \<lparr>exDividendDate = formatDateToIso (newDate P) (trim (cells ! 0)),
      cashAmount = trim (cells ! 1),
      recordDate = formatDateToIso (newDate P) (trim (cells ! 2)),
      payDate = formatDateToIso (newDate P) (trim (cells ! 3))\<rparr>"

definition primaryRow :: "Platform \<Rightarrow> string list \<Rightarrow> DividendHistory list" where
  "primaryRow P cells =
     (if length cells \<ge> 4 \<and> trim (cells ! 0) \<noteq> [] \<and> trim (cells ! 1) \<noteq> []
      then [normalizedRecord P cells] else [])"

definition primaryExtraction :: "Platform \<Rightarrow> Document \<Rightarrow> DividendHistory list" where
  "primaryExtraction P doc =
     concat (map (\<lambda>rows. if rows = [] then [] else concat (map (primaryRow P) rows))
       (tableWrapTables doc))"

text \<open>
  A row of the second selection: at least four cells, a date and an amount by their patterns.
\<close>

definition fallbackRow :: "Platform \<Rightarrow> string list \<Rightarrow> DividendHistory list" where
  "fallbackRow P cells =
     (if length cells \<ge> 4 \<and> regexTest datePattern (trim (cells ! 0)) \<and>
         regexTest amountPattern (trim (cells ! 1))
      then [normalizedRecord P cells] else [])"

definition fallbackExtraction :: "Platform \<Rightarrow> Document \<Rightarrow> DividendHistory list" where
  "fallbackExtraction P doc = concat (map (fallbackRow P) (tableBodyRows doc))"

text \<open>The second selection is used only when the first gives no record.\<close>

definition extractDividends :: "Platform \<Rightarrow> Document \<Rightarrow> DividendHistory list" where
  "extractDividends P doc =
     (let dividends = primaryExtraction P doc in
      if dividends = [] then fallbackExtraction P doc else dividends)"

definition dividendUrl :: "Platform \<Rightarrow> string \<Rightarrow> string" where
  "dividendUrl P ticker = ''https://stockanalysis.com/etf/'' @ toLowerCase P ticker @ ''/dividend/''"

definition notFoundMessage :: "string \<Rightarrow> string" where
  "notFoundMessage ticker =
     ''ETF ticker '' @ dquote # ticker @ dquote # '' not found on stockanalysis.com''"

definition extractionFailedMessage :: string where
  "extractionFailedMessage = ''Could not find dividend history table on the page''"

text \<open>
  The \<^verbatim>\<open>catch\<close> of \<^verbatim>\<open>getDividendHistory\<close> for an error that is not one of the two exception
  classes:
  \<^verbatim>\<open>
  if (err?.response?.status === 404) throw new BadRequestException(`ETF ticker "${ticker}" not found ...`);
  throw new InternalServerErrorException(err?.message || 'Failed to fetch dividend history from stockanalysis.com');\<close>
\<close>

definition upstreamException :: "string \<Rightarrow> AxiosError \<Rightarrow> HttpException" where
  "upstreamException ticker err =
     (if status err = Some 404 then BadRequestException (notFoundMessage ticker)
      else InternalServerErrorException
        (if message err \<noteq> [] then message err
         else ''Failed to fetch dividend history from stockanalysis.com''))"

section \<open>The single-ticker pipeline\<close>

text \<open>
  \<^verbatim>\<open>getDividendHistory(ticker, outputDir?)\<close>: the result, an exception or the history, and the
  state afterwards.
\<close>

definition getDividendHistory ::
  "Platform \<Rightarrow> World \<Rightarrow> Service \<Rightarrow> string \<Rightarrow> string option
     \<Rightarrow> (HttpException + DividendHistory list) \<times> Service" where
  "getDividendHistory P w s ticker outputDir =
     (if ticker = [] then (Inl (BadRequestException ''ticker is required''), s)
      else
        let tickerUpper = toUpperCase P ticker; now = dateNow w in
        case cacheGet s now tickerUpper of
          Some cachedData \<Rightarrow>
            (Inr cachedData,
             if truthy outputDir then saveToCsv P w s tickerUpper cachedData outputDir else s)
        | None \<Rightarrow>
            (case axiosGet w (dividendUrl P ticker) of
               Inl err \<Rightarrow> (Inl (upstreamException ticker err), s)
             | Inr doc \<Rightarrow>
                 let dividends = extractDividends P doc in
                 if dividends = []
                 then (Inl (InternalServerErrorException extractionFailedMessage), s)
                 else
                   let finalDividends =
                         (if csvExists P s tickerUpper outputDir
                          then mergeDividends (localeCompare P)
                                 (readExistingCsv P s tickerUpper outputDir) dividends
                          else Array_sort (byExDateDesc (localeCompare P)) dividends);
                       s1 = saveToCsv P w s tickerUpper finalDividends outputDir
                   in (Inr finalDividends, cacheSet s1 now tickerUpper finalDividends)))"

section \<open>Batch orchestrator\<close>

text \<open>
  \<^verbatim>\<open>readTickersFromCsv\<close>: the first column of every line after the header.
  \<^verbatim>\<open>
  for (let i = 1; i < lines.length; i++) {
    const line = lines[i].trim();
    if (!line) continue;
    const columns = line.split(',');
    const ticker = columns[0]?.trim();
    if (ticker && ticker.length > 0) tickers.push(ticker);
  }\<close>
\<close>

fun tickersOfLines :: "string list \<Rightarrow> string list" where
  "tickersOfLines [] = []"
| "tickersOfLines (l # ls) =
     (let line = trim l in
      if line = [] then tickersOfLines ls
      else
        let columns = split comma line;
            ticker = (case columns of [] \<Rightarrow> [] | c # _ \<Rightarrow> trim c)
        in if ticker \<noteq> [] then ticker # tickersOfLines ls else tickersOfLines ls)"

definition readTickersFromCsv ::
  "Platform \<Rightarrow> Service \<Rightarrow> string \<Rightarrow> HttpException + string list" where
  "readTickersFromCsv P s csvFilePath =
     (case files s (pathJoin P [cwd P, csvFilePath]) of
        None \<Rightarrow>
          Inl (BadRequestException (''Failed to read CSV file: '' @
            (let m = readFileError P (pathJoin P [cwd P, csvFilePath])
             in if m \<noteq> [] then m else ''Unknown error'')))
      | Some content \<Rightarrow>
          let lines = filter (\<lambda>line. trim line \<noteq> []) (split newline content) in
          if length lines < 2
          then Inl (BadRequestException ''CSV file must have at least a header and one data row'')
          else Inr (tickersOfLines (tl lines)))"

text \<open>\<^verbatim>\<open>{ ticker: string; success: boolean; error?: string }\<close>\<close>

record BatchOutcome =
  ticker :: string
  success :: bool
  error :: "string option"

text \<open>
  The outcome of one ticker from the result of its request:
  \<^verbatim>\<open>
  try { await this.getDividendHistory(ticker, outputDir); results.push({ ticker, success: true }); }
  catch (error) { const errorMsg = error?.message || 'Unknown error';
                  results.push({ ticker, success: false, error: errorMsg }); }\<close>
\<close>

definition outcomeOf :: "string \<Rightarrow> HttpException + DividendHistory list \<Rightarrow> BatchOutcome" where
  "outcomeOf t r =
     (case r of
        Inr history \<Rightarrow> \<lparr>ticker = t, success = True, error = None\<rparr>
      | Inl e \<Rightarrow>
          \<lparr>ticker = t, success = False,
           error = Some (if exceptionMessage e \<noteq> [] then exceptionMessage e
                         else ''Unknown error'')\<rparr>)"

text \<open>
  The loop over the tickers; \<open>ws i\<close> is what the outside answers during the request of the
  ticker at position \<open>i\<close>.
\<close>

fun processLoop ::
  "Platform \<Rightarrow> (nat \<Rightarrow> World) \<Rightarrow> nat \<Rightarrow> Service \<Rightarrow> string \<Rightarrow> string list
     \<Rightarrow> BatchOutcome list \<times> Service" where
  "processLoop P ws i s outputDir [] = ([], s)"
| "processLoop P ws i s outputDir (t # ts) =
     (case getDividendHistory P (ws i) s t (Some outputDir) of
        (r, s') \<Rightarrow>
          (case processLoop P ws (Suc i) s' outputDir ts of
             (results, s'') \<Rightarrow> (outcomeOf t r # results, s'')))"

definition processTickersFromCsv ::
  "Platform \<Rightarrow> (nat \<Rightarrow> World) \<Rightarrow> Service \<Rightarrow> string \<Rightarrow> string
     \<Rightarrow> (HttpException + BatchOutcome list) \<times> Service" where
  "processTickersFromCsv P ws s csvFilePath outputDir =
     (case readTickersFromCsv P s csvFilePath of
        Inl e \<Rightarrow> (Inl e, s)
      | Inr tickers \<Rightarrow>
          (case processLoop P ws 0 s outputDir tickers of
             (results, s') \<Rightarrow> (Inr results, s')))"

section \<open>A sample platform and sample pages\<close>

definition asciiUpper :: "char \<Rightarrow> char" where
  "asciiUpper c =
     (case map_of (zip ''abcdefghijklmnopqrstuvwxyz'' ''ABCDEFGHIJKLMNOPQRSTUVWXYZ'') c of
        Some u \<Rightarrow> u | None \<Rightarrow> c)"

definition asciiLower :: "char \<Rightarrow> char" where
  "asciiLower c =
     (case map_of (zip ''ABCDEFGHIJKLMNOPQRSTUVWXYZ'' ''abcdefghijklmnopqrstuvwxyz'') c of
        Some l \<Rightarrow> l | None \<Rightarrow> c)"

definition samplePlatform :: Platform where
  "samplePlatform =
     \<lparr>localeCompare = codeUnitCompare, newDate = sampleNewDate,
      toUpperCase = map asciiUpper, toLowerCase = map asciiLower,
      pathJoin = joinWith ''/'', cwd = ''/app'', readFileError = (\<lambda>p. ''ENOENT'')\<rparr>"

definition samplePage :: Document where
  "samplePage =
     \<lparr>tableWrapTables = [[[''Sep 5, 2025'', '' $0.50 '', ''Sep 5, 2025'', ''Oct 31, 2025'']]],
      tableBodyRows = [[''Sep 5, 2025'', '' $0.50 '', ''Sep 5, 2025'', ''Oct 31, 2025'']]\<rparr>"

definition emptyPage :: Document where
  "emptyPage = \<lparr>tableWrapTables = [], tableBodyRows = [[''Name'', ''Value'']]\<rparr>"

definition rec_sample :: DividendHistory where
  "rec_sample = \<lparr>exDividendDate = ''2025-09-05'', cashAmount = ''$0.50'',
     recordDate = ''2025-09-05'', payDate = ''2025-10-31''\<rparr>"

text \<open>A sample upstream, a sample world and sample states.\<close>

definition sampleUpstream :: "string \<Rightarrow> AxiosError + Document" where
  "sampleUpstream url =
     (if url = ''https://stockanalysis.com/etf/bbb/dividend/''
      then Inl \<lparr>status = Some 404, message = ''Request failed with status code 404''\<rparr>
      else if url = ''https://stockanalysis.com/etf/slow/dividend/''
      then Inl \<lparr>status = None, message = ''timeout of 15000ms exceeded''\<rparr>
      else if url = ''https://stockanalysis.com/etf/none/dividend/''
      then Inr emptyPage
      else Inr samplePage)"

definition sampleWorld :: World where
  "sampleWorld = \<lparr>dateNow = 1000, axiosGet = sampleUpstream, writeFails = (\<lambda>p. False)\<rparr>"

definition sampleService :: Service where
  "sampleService = newService [''/app/tickers.csv'' \<mapsto> ''Ticker,Name'' @ newline # ''AAA,First''
      @ newline # ''BBB,Second'' @ newline # ''CCC,Third'' @ [newline]]"

definition cachedService :: Service where
  "cachedService = cacheSet sampleService 500 ''ABC'' [rec_oct]"

definition afterAAA :: Service where
  "afterAAA = cacheSet (sampleService\<lparr>files := (files sampleService)
      (''/app/out/aaa_dividends.csv'' \<mapsto> csvContent [rec_sample])\<rparr>) 1000 ''AAA'' [rec_sample]"

lemmas platform_eval = samplePlatform_def asciiUpper_def asciiLower_def

section \<open>Properties of the sort\<close>

lemma mset_insort_cmp: "mset (insort_cmp cmp x ys) = add_mset x (mset ys)"
  by (induction ys) auto

lemma mset_Array_sort: "mset (Array_sort cmp xs) = mset xs"
  by (induction xs) (auto simp: Array_sort_def mset_insort_cmp)

lemma set_insort_cmp: "set (insort_cmp cmp x ys) = insert x (set ys)"
  by (induction ys) auto

lemma set_Array_sort: "set (Array_sort cmp xs) = set xs"
  by (induction xs) (auto simp: Array_sort_def set_insort_cmp)

lemma consistent_total:
  assumes "consistentComparator lc"
  shows "\<not> lc a b \<le> 0 \<Longrightarrow> lc b a \<le> 0"
proof -
  assume "\<not> lc a b \<le> 0"
  then have "sgn (lc a b) = 1" by simp
  moreover from assms have "sgn (lc a b) = - sgn (lc b a)"
    unfolding consistentComparator_def by blast
  ultimately have "sgn (lc b a) = - 1" by simp
  then show "lc b a \<le> 0" by (simp add: sgn_if split: if_splits)
qed

lemma consistent_trans:
  assumes "consistentComparator lc"
  shows "lc a b \<le> 0 \<Longrightarrow> lc b c \<le> 0 \<Longrightarrow> lc a c \<le> 0"
  using assms unfolding consistentComparator_def by blast

lemma sorted_insort_cmp:
  assumes "consistentComparator lc"
  shows "sorted_wrt (\<lambda>a b. byExDateDesc lc a b \<le> 0) ys \<Longrightarrow>
         sorted_wrt (\<lambda>a b. byExDateDesc lc a b \<le> 0) (insort_cmp (byExDateDesc lc) x ys)"
proof (induction ys)
  case Nil
  then show ?case by simp
next
  case (Cons y ys)
  show ?case
  proof (cases "byExDateDesc lc x y \<le> 0")
    case True
    have "\<forall>z \<in> set ys. byExDateDesc lc x z \<le> 0"
    proof
      fix z assume "z \<in> set ys"
      with Cons.prems have "byExDateDesc lc y z \<le> 0" by simp
      with True show "byExDateDesc lc x z \<le> 0"
        unfolding byExDateDesc_def using consistent_trans [OF assms] by blast
    qed
    with True Cons.prems show ?thesis by simp
  next
    case False
    then have "byExDateDesc lc y x \<le> 0"
      unfolding byExDateDesc_def using consistent_total [OF assms] by blast
    with False Cons show ?thesis by (auto simp: set_insort_cmp)
  qed
qed

lemma sortedDesc_Array_sort:
  assumes "consistentComparator lc"
  shows "sortedDesc lc (Array_sort (byExDateDesc lc) xs)"
proof (induction xs)
  case Nil
  then show ?case by (simp add: sortedDesc_def Array_sort_def)
next
  case (Cons x xs)
  then show ?case
    using sorted_insort_cmp [OF assms]
    by (simp add: sortedDesc_def Array_sort_def)
qed

lemma Array_sort_sorted_id:
  "sorted_wrt (\<lambda>a b. cmp a b \<le> 0) xs \<Longrightarrow> Array_sort cmp xs = xs"
proof (induction xs)
  case Nil
  then show ?case by (simp add: Array_sort_def)
next
  case (Cons x xs)
  then have "Array_sort cmp xs = xs" by simp
  then have "Array_sort cmp (x # xs) = insort_cmp cmp x xs"
    by (simp add: Array_sort_def)
  also have "\<dots> = x # xs"
    using Cons.prems by (cases xs) auto
  finally show ?case .
qed

lemma consistent_codeUnitCompare: "consistentComparator codeUnitCompare"
  unfolding consistentComparator_def codeUnitCompare_def
  by (auto simp: sgn_if)

lemma consistent_tie:
  assumes "consistentComparator lc" "lc a k = 0" "lc b k = 0"
  shows "lc b a = 0"
proof -
  from assms(1) have s: "\<And>x y. sgn (lc x y) = - sgn (lc y x)"
    unfolding consistentComparator_def by blast
  from s [of k a] assms(2) have ka: "lc k a = 0" by (simp add: sgn_if split: if_splits)
  from s [of k b] assms(3) have kb: "lc k b = 0" by (simp add: sgn_if split: if_splits)
  have 1: "lc b a \<le> 0" using consistent_trans [OF assms(1), of b k a] assms(3) ka by simp
  have 2: "lc a b \<le> 0" using consistent_trans [OF assms(1), of a k b] assms(2) kb by simp
  from s [of b a] 1 2 show ?thesis by (simp add: sgn_if split: if_splits)
qed

lemma filter_insort_tie:
  assumes "consistentComparator lc"
  shows "filter (\<lambda>d. lc (exDividendDate d) k = 0) (insort_cmp (byExDateDesc lc) x ys) =
         filter (\<lambda>d. lc (exDividendDate d) k = 0) (x # ys)"
proof (induction ys)
  case Nil
  then show ?case by simp
next
  case (Cons y ys)
  show ?case
  proof (cases "byExDateDesc lc x y \<le> 0")
    case True
    then show ?thesis by simp
  next
    case False
    then have "\<not> (lc (exDividendDate x) k = 0 \<and> lc (exDividendDate y) k = 0)"
      using consistent_tie [OF assms, of "exDividendDate x" k "exDividendDate y"]
      by (auto simp: byExDateDesc_def)
    with False Cons show ?thesis by auto
  qed
qed

lemma stable_Array_sort:
  assumes "consistentComparator lc"
  shows "filter (\<lambda>d. lc (exDividendDate d) k = 0) (Array_sort (byExDateDesc lc) xs) =
         filter (\<lambda>d. lc (exDividendDate d) k = 0) xs"
proof (induction xs)
  case Nil
  then show ?case by (simp add: Array_sort_def)
next
  case (Cons x xs)
  have "filter (\<lambda>d. lc (exDividendDate d) k = 0) (Array_sort (byExDateDesc lc) (x # xs)) =
        filter (\<lambda>d. lc (exDividendDate d) k = 0) (x # Array_sort (byExDateDesc lc) xs)"
    using filter_insort_tie [OF assms] by (simp add: Array_sort_def)
  with Cons show ?case by simp
qed

section \<open>The merge engine: theorems\<close>

lemma mergeDividends_eq:
  "mergeDividends lc existing harvested =
     Array_sort (byExDateDesc lc) (mergeInput existing harvested)"
  by (cases existing) (simp_all add: mergeInput_def newerEntries_def)

lemma mergeInput_admitted: "mergeInput existing harvested = admitted existing harvested @ existing"
  by (simp add: mergeInput_def admitted_def)

lemma sortedDesc_descendingBy:
  assumes "consistentComparator lc" and "sortedDesc lc xs"
  shows "descendingBy lc xs"
proof -
  have "0 \<le> lc a b" if "lc b a \<le> 0" for a b
  proof -
    from assms(1) have "sgn (lc a b) = - sgn (lc b a)"
      unfolding consistentComparator_def by blast
    with that show ?thesis by (simp add: sgn_if split: if_splits)
  qed
  then have "\<And>x y. byExDateDesc lc x y \<le> 0 \<Longrightarrow> 0 \<le> lc (exDividendDate x) (exDividendDate y)"
    by (simp add: byExDateDesc_def)
  with assms(2) show ?thesis
    unfolding sortedDesc_def descendingBy_def
    by (rule_tac sorted_wrt_mono_rel [where P = "\<lambda>a b. byExDateDesc lc a b \<le> 0"]) auto
qed

text \<open>
  C1. The result of the merge is the sort, descending by ex-dividend date, of the harvested
  records themselves when there is no existing history, and otherwise of the harvested records
  strictly greater than the first existing date followed by all existing records: it has
  exactly the records of that input; it is descending, that is, under the collation the date
  of each record is not smaller than the date of any record after it; and records whose dates
  tie keep the order they have in that input.
\<close>

theorem mergeDividends_spec:
  assumes "consistentComparator lc"
  shows "mset (mergeDividends lc existing harvested) = mset (mergeInput existing harvested) \<and>
         descendingBy lc (mergeDividends lc existing harvested) \<and>
         (\<forall>k. filter (\<lambda>d. lc (exDividendDate d) k = 0) (mergeDividends lc existing harvested) =
              filter (\<lambda>d. lc (exDividendDate d) k = 0) (mergeInput existing harvested))"
proof -
  let ?r = "mergeDividends lc existing harvested"
  have m: "mset ?r = mset (mergeInput existing harvested)"
    by (simp add: mergeDividends_eq mset_Array_sort)
  have s: "sorted_wrt (\<lambda>a b. byExDateDesc lc a b \<le> 0) ?r"
    using sortedDesc_Array_sort [OF assms, of "mergeInput existing harvested"]
    by (simp add: mergeDividends_eq sortedDesc_def)
  have c: "0 \<le> lc (exDividendDate x) (exDividendDate y)" if "byExDateDesc lc x y \<le> 0" for x y
  proof -
    from assms have "sgn (lc (exDividendDate x) (exDividendDate y)) =
        - sgn (lc (exDividendDate y) (exDividendDate x))"
      unfolding consistentComparator_def by blast
    with that show ?thesis by (simp add: byExDateDesc_def sgn_if split: if_splits)
  qed
  have d: "descendingBy lc ?r"
    unfolding descendingBy_def
    using s c by (rule_tac sorted_wrt_mono_rel [where P = "\<lambda>a b. byExDateDesc lc a b \<le> 0"]) auto
  have t: "\<forall>k. filter (\<lambda>d. lc (exDividendDate d) k = 0) ?r =
      filter (\<lambda>d. lc (exDividendDate d) k = 0) (mergeInput existing harvested)"
    by (simp add: mergeDividends_eq stable_Array_sort [OF assms])
  from m d t show ?thesis by blast
qed

text \<open>
  A run in which the sort has work to do: the two admitted records arrive oldest first, and
  the record of the cutoff date and the older one are left out.
\<close>

theorem mergeDividends_spec_witness:
  "consistentComparator codeUnitCompare \<and>
   mergeInput [rec_oct] [rec_oct, rec_nov, rec_dec, rec_sep] = [rec_nov, rec_dec, rec_oct] \<and>
   mergeDividends codeUnitCompare [rec_oct] [rec_oct, rec_nov, rec_dec, rec_sep] =
     [rec_dec, rec_nov, rec_oct] \<and>
   mset [rec_dec, rec_nov, rec_oct] = mset [rec_nov, rec_dec, rec_oct] \<and>
   descendingBy codeUnitCompare [rec_dec, rec_nov, rec_oct] \<and>
   \<not> descendingBy codeUnitCompare [rec_nov, rec_dec, rec_oct] \<and>
   \<not> descendingBy codeUnitCompare [rec_oct, rec_nov, rec_dec]"
proof -
  have i: "mergeInput [rec_oct] [rec_oct, rec_nov, rec_dec, rec_sep] = [rec_nov, rec_dec, rec_oct]"
    by (simp add: mergeInput_def sample_defs)
  have e: "mergeDividends codeUnitCompare [rec_oct] [rec_oct, rec_nov, rec_dec, rec_sep] =
      [rec_dec, rec_nov, rec_oct]"
    by (simp add: merge_eval sample_defs)
  have n1: "\<not> descendingBy codeUnitCompare [rec_nov, rec_dec, rec_oct]"
    by (simp add: descendingBy_def codeUnitCompare_def sample_defs)
  have n2: "\<not> descendingBy codeUnitCompare [rec_oct, rec_nov, rec_dec]"
    by (simp add: descendingBy_def codeUnitCompare_def sample_defs)
  note t = mergeDividends_spec [OF consistent_codeUnitCompare, of "[rec_oct]"
      "[rec_oct, rec_nov, rec_dec, rec_sep]"]
  from t have m: "mset [rec_dec, rec_nov, rec_oct] = mset [rec_nov, rec_dec, rec_oct]"
    unfolding i e by blast
  from t have d: "descendingBy codeUnitCompare [rec_dec, rec_nov, rec_oct]"
    unfolding i e by blast
  from consistent_codeUnitCompare i e m d n1 n2 show ?thesis by blast
qed

text \<open>
  Under the comparison by code unit the result is descending in the lexicographic order of
  the dates.
\<close>

lemma mergeDividends_codeUnit_descending:
  "sorted_wrt (\<lambda>a b. exDividendDate b \<le> exDividendDate a)
     (mergeDividends codeUnitCompare existing harvested)"
proof -
  have "descendingBy codeUnitCompare (mergeDividends codeUnitCompare existing harvested)"
    unfolding mergeDividends_eq
    using sortedDesc_descendingBy [OF consistent_codeUnitCompare
        sortedDesc_Array_sort [OF consistent_codeUnitCompare]] .
  then show ?thesis
    unfolding descendingBy_def
    by (rule_tac sorted_wrt_mono_rel
          [where P = "\<lambda>a b. 0 \<le> codeUnitCompare (exDividendDate a) (exDividendDate b)"])
      (auto simp: codeUnitCompare_def split: if_splits)
qed

text \<open>The cutoff example of the specification, evaluated.\<close>

lemma mergeDividends_cutoff_example:
  "mergeDividends codeUnitCompare [rec_oct] [rec_oct, rec_nov, rec_sep] = [rec_nov, rec_oct]"
  by (simp add: merge_eval sample_defs)

text \<open>
  C3, as stated, fails: two harvested records newer than the cutoff that share a date are
  both admitted.
\<close>

theorem mergeDividends_duplicate_counterexample:
  "strictlyDesc [rec_oct] \<and> sortedDesc codeUnitCompare [rec_oct] \<and>
   mergeDividends codeUnitCompare [rec_oct] [rec_nov, rec_nov_special] =
     [rec_nov, rec_nov_special, rec_oct] \<and>
   \<not> distinct (map exDividendDate
        (mergeDividends codeUnitCompare [rec_oct] [rec_nov, rec_nov_special]))"
  by (simp add: merge_eval sample_defs)

lemma strictlyDesc_distinct: "strictlyDesc xs \<Longrightarrow> distinct (map exDividendDate xs)"
  unfolding strictlyDesc_def by (induction xs) auto

lemma strictlyDesc_le_first:
  assumes "strictlyDesc xs" "e \<in> set xs"
  shows "exDividendDate e \<le> exDividendDate (xs ! 0)"
proof (cases xs)
  case Nil
  with assms show ?thesis by simp
next
  case (Cons y ys)
  with assms show ?thesis unfolding strictlyDesc_def by auto
qed

text \<open>
  C3, amended. When the existing history is strictly descending by ex-dividend date and the
  harvested records that the merge admits (all of them when there is no existing history,
  those strictly newer than the first existing date otherwise) have pairwise distinct
  ex-dividend dates, no two records of the merged history share an ex-dividend date.
\<close>

theorem mergeDividends_distinct_dates:
  assumes "strictlyDesc existing"
    and "distinct (map exDividendDate (admitted existing harvested))"
  shows "distinct (map exDividendDate (mergeDividends lc existing harvested))"
proof -
  have disj: "exDividendDate d \<noteq> exDividendDate e"
    if "d \<in> set (admitted existing harvested)" "e \<in> set existing" for d e
  proof -
    from that(2) have ne: "existing \<noteq> []" by auto
    with that(1) have "exDividendDate (existing ! 0) < exDividendDate d"
      by (simp add: admitted_def)
    moreover have "exDividendDate e \<le> exDividendDate (existing ! 0)"
      using strictlyDesc_le_first [OF assms(1) that(2)] .
    ultimately show ?thesis by auto
  qed
  have "distinct (map exDividendDate (mergeInput existing harvested))"
    unfolding mergeInput_admitted
    using assms(2) strictlyDesc_distinct [OF assms(1)] disj by auto
  moreover have "mset (map exDividendDate (mergeDividends lc existing harvested)) =
        mset (map exDividendDate (mergeInput existing harvested))"
    by (simp add: mergeDividends_eq mset_Array_sort)
  ultimately show ?thesis
    using mset_eq_imp_distinct_iff by blast
qed

theorem mergeDividends_distinct_dates_witness:
  "strictlyDesc [rec_oct, rec_sep] \<and>
   distinct (map exDividendDate (admitted [rec_oct, rec_sep] [rec_oct, rec_nov, rec_sep])) \<and>
   distinct (map exDividendDate
     (mergeDividends codeUnitCompare [rec_oct, rec_sep] [rec_oct, rec_nov, rec_sep]))"
proof -
  have a: "strictlyDesc [rec_oct, rec_sep]"
    by (simp add: strictlyDesc_def sample_defs)
  have b: "distinct (map exDividendDate (admitted [rec_oct, rec_sep] [rec_oct, rec_nov, rec_sep]))"
    by (simp add: admitted_def sample_defs)
  from mergeDividends_distinct_dates [OF a b, of codeUnitCompare] a b show ?thesis by simp
qed

text \<open>
  C8. Merging an existing history that is descending by ex-dividend date with no harvested
  records returns the existing history, in the same order and with the same content.
\<close>

theorem mergeDividends_nothing_harvested:
  assumes "sortedDesc lc existing"
  shows "mergeDividends lc existing [] = existing"
proof -
  have "mergeInput existing [] = existing" by (simp add: mergeInput_def)
  then show ?thesis
    using Array_sort_sorted_id [of "byExDateDesc lc" existing] assms
    by (simp add: mergeDividends_eq sortedDesc_def)
qed

theorem mergeDividends_nothing_harvested_witness:
  "sortedDesc codeUnitCompare [rec_nov, rec_oct, rec_sep] \<and>
   mergeDividends codeUnitCompare [rec_nov, rec_oct, rec_sep] [] = [rec_nov, rec_oct, rec_sep]"
proof -
  have a: "sortedDesc codeUnitCompare [rec_nov, rec_oct, rec_sep]"
    by (simp add: merge_eval sample_defs)
  from mergeDividends_nothing_harvested [OF a] a show ?thesis by simp
qed

text \<open>An existing list that is not descending is put in order, so it is not returned as it is.\<close>

lemma mergeDividends_reorders_unsorted:
  "mergeDividends codeUnitCompare [rec_sep, rec_oct] [] = [rec_oct, rec_sep]"
  by (simp add: merge_eval sample_defs)

section \<open>The codec: decoding what was encoded\<close>

lemma split_not_Nil: "split sep s \<noteq> []"
  by (induction s) (auto split: list.splits)

lemma split_append_sep: "split sep (a @ sep # b) = split sep a @ split sep b"
proof (induction a)
  case Nil
  then show ?case by simp
next
  case (Cons c a)
  then show ?case using split_not_Nil [of sep a]
    by (auto split: list.splits)
qed

lemma split_no_sep: "sep \<notin> set s \<Longrightarrow> split sep s = [s]"
  by (induction s) auto

lemma split_joinWith:
  "rows \<noteq> [] \<Longrightarrow> split sep (joinWith [sep] rows) = concat (map (split sep) rows)"
proof (induction "[sep]" rows rule: joinWith.induct)
  case 1
  then show ?case by simp
next
  case (2 x)
  then show ?case by simp
next
  case (3 x y ys)
  then show ?case by (simp add: split_append_sep)
qed

lemma recordsOfLines_append:
  "recordsOfLines (a @ b) = recordsOfLines a @ recordsOfLines b"
  by (induction a) (auto simp: Let_def)

lemma split_csvHeader:
  "split newline (csvHeader @ rest) =
     ''Ex-Dividend Date,Cash Amount,Record Date,Pay Date'' # split newline rest"
proof -
  have "split newline (''Ex-Dividend Date,Cash Amount,Record Date,Pay Date'' @ newline # rest) =
        split newline ''Ex-Dividend Date,Cash Amount,Record Date,Pay Date'' @ split newline rest"
    by (rule split_append_sep)
  moreover have "split newline ''Ex-Dividend Date,Cash Amount,Record Date,Pay Date'' =
      [''Ex-Dividend Date,Cash Amount,Record Date,Pay Date'']"
    by (rule split_no_sep) (simp add: newline_def)
  ultimately show ?thesis by (simp add: csvHeader_def)
qed

lemma nonBlank_header: "nonBlank ''Ex-Dividend Date,Cash Amount,Record Date,Pay Date''"
  by (simp add: nonBlank_def trim_def isWhiteSpace_def)

lemma recordsOfLines_concat:
  "recordsOfLines (concat xss) = concat (map recordsOfLines xss)"
  by (induction xss) (simp_all add: recordsOfLines_append)

lemma filter_nonBlank_header:
  "filter nonBlank (''Ex-Dividend Date,Cash Amount,Record Date,Pay Date'' # ls) =
     ''Ex-Dividend Date,Cash Amount,Record Date,Pay Date'' # filter nonBlank ls"
  using nonBlank_header by (simp only: filter.simps if_True)

lemma parseCsvContent_alt:
  "parseCsvContent content =
     (let lines = filter nonBlank (split newline content) in
      if length lines < 2 then [] else recordsOfLines (tl lines))"
  unfolding parseCsvContent_def nonBlank_def ..

lemma parseCsvContent_header:
  "parseCsvContent (csvHeader @ rest) = recordsOfLines (filter nonBlank (split newline rest))"
proof -
  let ?L = "filter nonBlank (split newline rest)"
  have "parseCsvContent (csvHeader @ rest) =
      (if length (''Ex-Dividend Date,Cash Amount,Record Date,Pay Date'' # ?L) < 2 then []
       else recordsOfLines ?L)"
    unfolding parseCsvContent_alt split_csvHeader filter_nonBlank_header Let_def
    by (simp only: list.sel)
  also have "\<dots> = recordsOfLines ?L"
    by (cases ?L) simp_all
  finally show ?thesis .
qed

lemma nonBlank_Nil: "\<not> nonBlank []"
  by (simp add: nonBlank_def trim_def)

text \<open>
  Decoding an encoded history goes row by row: the records are those of the lines of each
  encoded row, in order.
\<close>

lemma parseCsvContent_csvContent:
  "parseCsvContent (csvContent ds) = concat (map (\<lambda>d. rowRecords (csvRow d)) ds)"
proof (cases "ds = []")
  case True
  then show ?thesis
    unfolding csvContent_def parseCsvContent_header
    by (simp add: nonBlank_Nil)
next
  case False
  then have m: "map csvRow ds \<noteq> []" by simp
  have "parseCsvContent (csvContent ds) =
      recordsOfLines (filter nonBlank (concat (map (split newline) (map csvRow ds))))"
    unfolding csvContent_def parseCsvContent_header split_joinWith [OF m] ..
  also have "\<dots> = concat (map (\<lambda>d. rowRecords (csvRow d)) ds)"
    by (simp add: rowRecords_def filter_concat recordsOfLines_concat comp_def)
  finally show ?thesis .
qed

lemma comma_not_space: "\<not> isWhiteSpace comma"
  by (simp add: isWhiteSpace_def comma_def)

lemma comma_neq [simp]: "comma \<noteq> dquote" "comma \<noteq> newline" "dquote \<noteq> comma" "newline \<noteq> comma"
  by (simp_all add: comma_def dquote_def newline_def)

lemma dropWhile_append_keep:
  "\<not> P c \<Longrightarrow> dropWhile P (xs @ c # ys) = dropWhile P xs @ c # ys"
  by (induction xs) auto

lemma trim_ends_comma:
  "trim (f @ comma # g @ [comma]) = dropWhile isWhiteSpace f @ comma # g @ [comma]"
proof -
  have "dropWhile isWhiteSpace (f @ comma # g @ [comma]) =
        dropWhile isWhiteSpace f @ comma # g @ [comma]"
    using comma_not_space by (rule dropWhile_append_keep)
  moreover have "rev (dropWhile isWhiteSpace f @ comma # g @ [comma]) =
        comma # rev (dropWhile isWhiteSpace f @ comma # g)"
    by simp
  ultimately show ?thesis
    using comma_not_space by (simp add: trim_def)
qed

lemma trim_dropWhile: "trim (dropWhile isWhiteSpace f) = trim f"
  by (simp add: trim_def)

lemma parseCsvLoop_field:
  "comma \<notin> set f \<Longrightarrow> dquote \<notin> set f \<Longrightarrow>
   parseCsvLoop vals cur False (f @ comma # rest) =
   parseCsvLoop (vals @ [trim (cur @ f)]) [] False rest"
  by (induction f arbitrary: cur) auto

lemma csvRow_empty_payDate:
  assumes "payDate r = []"
    and "plainField (exDividendDate r)" "plainField (cashAmount r)" "plainField (recordDate r)"
  shows "csvRow r = exDividendDate r @ comma # cashAmount r @ comma # recordDate r @ [comma]"
  using assms by (simp add: csvRow_def escapeCsv_def plainField_def)

lemma parseCsvLine_empty_payDate:
  assumes "payDate r = []"
    and "plainField (exDividendDate r)" "plainField (cashAmount r)" "plainField (recordDate r)"
  shows "parseCsvLine (trim (csvRow r)) =
     [trim (exDividendDate r), trim (cashAmount r), trim (recordDate r)]"
proof -
  let ?e = "dropWhile isWhiteSpace (exDividendDate r)"
  have e: "comma \<notin> set ?e" "dquote \<notin> set ?e"
    using assms(2) set_dropWhileD [of _ isWhiteSpace "exDividendDate r"]
    by (auto simp: plainField_def)
  have c: "comma \<notin> set (cashAmount r)" "dquote \<notin> set (cashAmount r)"
    using assms(3) by (auto simp: plainField_def)
  have d: "comma \<notin> set (recordDate r)" "dquote \<notin> set (recordDate r)"
    using assms(4) by (auto simp: plainField_def)
  have "trim (csvRow r) = ?e @ comma # cashAmount r @ comma # recordDate r @ [comma]"
    using trim_ends_comma [of "exDividendDate r" "cashAmount r @ comma # recordDate r"]
    by (simp add: csvRow_empty_payDate [OF assms])
  then have "parseCsvLine (trim (csvRow r)) =
      parseCsvLoop [] [] False (?e @ comma # cashAmount r @ comma # recordDate r @ comma # [])"
    by (simp add: parseCsvLine_def)
  also have "\<dots> = parseCsvLoop [trim ?e] [] False (cashAmount r @ comma # recordDate r @ comma # [])"
    using parseCsvLoop_field [OF e, of "[]" "[]"] by simp
  also have "\<dots> = parseCsvLoop [trim ?e, trim (cashAmount r)] [] False (recordDate r @ comma # [])"
    using parseCsvLoop_field [OF c, of "[trim ?e]" "[]"] by simp
  also have "\<dots> = parseCsvLoop [trim ?e, trim (cashAmount r), trim (recordDate r)] [] False []"
    using parseCsvLoop_field [OF d, of "[trim ?e, trim (cashAmount r)]" "[]" "[]"] by simp
  finally show ?thesis by (simp add: trim_dropWhile)
qed

lemma rowRecords_empty_payDate:
  assumes "payDate r = []"
    and "plainField (exDividendDate r)" "plainField (cashAmount r)" "plainField (recordDate r)"
  shows "rowRecords (csvRow r) = []"
proof -
  have "newline \<notin> set (csvRow r)"
    using assms by (simp add: csvRow_empty_payDate [OF assms] plainField_def)
  then have s: "split newline (csvRow r) = [csvRow r]" by (rule split_no_sep)
  have "length (parseCsvLine (trim (csvRow r))) = 3"
    by (simp add: parseCsvLine_empty_payDate [OF assms])
  then show ?thesis
    by (simp add: rowRecords_def s Let_def)
qed

text \<open>
  C10. A record whose pay date is empty and whose other fields are not empty and hold no
  comma, double quote or line feed is lost by encoding and then decoding: its encoded line
  ends with a comma, the tokenizer returns three tokens for it (none for the empty last
  field), fewer than four, so the line yields no record: the decoded history is that of the
  history without the record, and the history of that record alone decodes to nothing.
\<close>

theorem empty_payDate_dropped:
  assumes "payDate r = []"
    and "plainField (exDividendDate r)" "plainField (cashAmount r)" "plainField (recordDate r)"
  shows "last (csvRow r) = comma \<and>
     parseCsvLine (trim (csvRow r)) =
       [trim (exDividendDate r), trim (cashAmount r), trim (recordDate r)] \<and>
     length (parseCsvLine (trim (csvRow r))) < 4 \<and>
     parseCsvContent (csvContent (xs @ r # ys)) = parseCsvContent (csvContent (xs @ ys)) \<and>
     parseCsvContent (csvContent [r]) = []"
proof -
  have 1: "last (csvRow r) = comma"
    by (simp add: csvRow_empty_payDate [OF assms])
  note 2 = parseCsvLine_empty_payDate [OF assms]
  have 3: "length (parseCsvLine (trim (csvRow r))) < 4" by (simp add: 2)
  have 4: "parseCsvContent (csvContent (xs @ r # ys)) = parseCsvContent (csvContent (xs @ ys))"
    by (simp add: parseCsvContent_csvContent rowRecords_empty_payDate [OF assms])
  have 5: "parseCsvContent (csvContent [r]) = []"
    by (simp add: parseCsvContent_csvContent rowRecords_empty_payDate [OF assms])
  from 1 2 3 4 5 show ?thesis by blast
qed

theorem empty_payDate_dropped_witness:
  "payDate rec_no_payDate = [] \<and> plainField (exDividendDate rec_no_payDate) \<and>
   plainField (cashAmount rec_no_payDate) \<and> plainField (recordDate rec_no_payDate) \<and>
   last (csvRow rec_no_payDate) = comma \<and>
   length (parseCsvLine (trim (csvRow rec_no_payDate))) < 4 \<and>
   parseCsvContent (csvContent ([rec_nov] @ rec_no_payDate # [rec_oct])) =
     parseCsvContent (csvContent ([rec_nov] @ [rec_oct])) \<and>
   parseCsvContent (csvContent [rec_no_payDate]) = []"
proof -
  have a: "payDate rec_no_payDate = []" by (simp add: rec_no_payDate_def)
  have b: "plainField (exDividendDate rec_no_payDate)"
    by (simp add: rec_no_payDate_def plainField_def comma_def dquote_def newline_def)
  have c: "plainField (cashAmount rec_no_payDate)"
    by (simp add: rec_no_payDate_def plainField_def comma_def dquote_def newline_def)
  have d: "plainField (recordDate rec_no_payDate)"
    by (simp add: rec_no_payDate_def plainField_def comma_def dquote_def newline_def)
  from empty_payDate_dropped [OF a b c d, of "[rec_nov]" "[rec_oct]"] a b c d
  show ?thesis by blast
qed

lemma csvRow_rec_no_payDate: "csvRow rec_no_payDate = ''2025-12-01,$0.40,2025-12-01,''"
  by (simp add: rec_no_payDate_def csvRow_def escapeCsv_def comma_def dquote_def newline_def)

lemma rowRecords_rec_quoted:
  "rowRecords (csvRow rec_quoted) = [rec_quoted\<lparr>cashAmount := ''$0.50 special''\<rparr>]"
  by (simp add: rec_quoted_def row_eval)

lemma rowRecords_rec_multiline: "rowRecords (csvRow rec_multiline) = []"
  by (simp add: rec_multiline_def row_eval)

lemma rowRecords_rec_comma: "rowRecords (csvRow rec_comma) = [rec_comma]"
  by (simp add: rec_comma_def row_eval)

text \<open>
  C2, evaluated at two histories. A field with double quotes comes back without them, and a record
  with a line feed in a field does not come back at all: decoding what was encoded does not
  give the history back.
\<close>

theorem roundtrip_fails:
  "parseCsvContent (csvContent [rec_quoted]) = [rec_quoted\<lparr>cashAmount := ''$0.50 special''\<rparr>] \<and>
   parseCsvContent (csvContent [rec_quoted]) \<noteq> [rec_quoted] \<and>
   parseCsvContent (csvContent [rec_multiline]) = [] \<and>
   parseCsvContent (csvContent [rec_multiline]) \<noteq> [rec_multiline]"
  by (simp add: parseCsvContent_csvContent rowRecords_rec_quoted rowRecords_rec_multiline)
    (simp add: rec_quoted_def dquote_def)

text \<open>A field with a comma does come back.\<close>

lemma roundtrip_comma: "parseCsvContent (csvContent [rec_comma]) = [rec_comma]"
  by (simp add: parseCsvContent_csvContent rowRecords_rec_comma)

text \<open>No decoded field holds a double quote, whatever the content decoded.\<close>

lemma parseCsvLoop_no_dquote:
  "\<forall>v \<in> set vals. dquote \<notin> set v \<Longrightarrow> dquote \<notin> set cur \<Longrightarrow>
   \<forall>v \<in> set (parseCsvLoop vals cur q s). dquote \<notin> set v"
proof (induction s arbitrary: vals cur q)
  case Nil
  then show ?case
    using set_dropWhileD [of _ isWhiteSpace "rev (dropWhile isWhiteSpace cur)"]
      set_dropWhileD [of _ isWhiteSpace cur]
    by (auto simp: trim_def)
next
  case (Cons c s)
  have t: "dquote \<notin> set (trim cur)"
    using Cons.prems(2) set_dropWhileD [of _ isWhiteSpace "rev (dropWhile isWhiteSpace cur)"]
      set_dropWhileD [of _ isWhiteSpace cur]
    by (auto simp: trim_def)
  show ?case
  proof (cases "c = dquote")
    case True
    then show ?thesis using Cons.IH [OF Cons.prems] by simp
  next
    case False
    show ?thesis
    proof (cases "c = comma \<and> \<not> q")
      case True
      have "\<forall>v \<in> set (vals @ [trim cur]). dquote \<notin> set v" using Cons.prems(1) t by auto
      from Cons.IH [OF this, of "[]" q] True False show ?thesis by simp
    next
      case F2: False
      have "dquote \<notin> set (cur @ [c])" using Cons.prems(2) False by auto
      from Cons.IH [OF Cons.prems(1) this, of q] F2 False show ?thesis by auto
    qed
  qed
qed

lemma parseCsvLine_no_dquote: "v \<in> set (parseCsvLine line) \<Longrightarrow> dquote \<notin> set v"
  using parseCsvLoop_no_dquote [of "[]" "[]" False line] by (simp add: parseCsvLine_def)

lemma recordsOfLines_no_dquote:
  "r \<in> set (recordsOfLines ls) \<Longrightarrow>
   dquote \<notin> set (exDividendDate r) \<and> dquote \<notin> set (cashAmount r) \<and>
   dquote \<notin> set (recordDate r) \<and> dquote \<notin> set (payDate r)"
proof (induction ls)
  case Nil
  then show ?case by simp
next
  case (Cons l ls)
  let ?vals = "parseCsvLine (trim l)"
  show ?case
  proof (cases "r \<in> set (recordsOfLines ls)")
    case True
    then show ?thesis by (rule Cons.IH)
  next
    case False
    with Cons.prems have len: "4 \<le> length ?vals"
      and r: "r = \<lparr>exDividendDate = ?vals ! 0, cashAmount = ?vals ! 1,
              recordDate = ?vals ! 2, payDate = ?vals ! 3\<rparr>"
      by (auto simp: Let_def split: if_splits)
    from len have "?vals ! 0 \<in> set ?vals" "?vals ! 1 \<in> set ?vals"
      "?vals ! 2 \<in> set ?vals" "?vals ! 3 \<in> set ?vals"
      by (auto intro!: nth_mem)
    then show ?thesis
      using parseCsvLine_no_dquote [of _ "trim l"] by (simp add: r)
  qed
qed

lemma parseCsvContent_no_dquote:
  "r \<in> set (parseCsvContent content) \<Longrightarrow> dquote \<notin> set (cashAmount r)"
  using recordsOfLines_no_dquote [of r]
  by (auto simp: parseCsvContent_def Let_def split: if_splits)

section \<open>The record normalizer: theorems\<close>









section \<open>The cache: theorems\<close>

text \<open>
  C5. A lookup in the cache returns the stored history exactly when there is an entry for the
  key and the current time is strictly before its expiry, and is a miss otherwise. After
  storing at time \<open>now\<close>, a lookup at time \<open>now'\<close> returns the stored history when
  \<open>now'\<close> is before \<open>now\<close> plus the time to live and is a miss otherwise; so a lookup at the
  time of storing is a miss when the time to live is 0 and returns the history, unchanged,
  when it is one hour.
\<close>

theorem cache_get_after_set:
  "(cacheGet s now key = Some d \<longleftrightarrow>
      (\<exists>entry. cache s key = Some entry \<and> now < expiresAtMs entry \<and> data entry = d)) \<and>
   (cacheGet s now key = None \<longleftrightarrow>
      (\<forall>entry. cache s key = Some entry \<longrightarrow> \<not> now < expiresAtMs entry)) \<and>
   cacheGet (cacheSet s now key d) now' key =
      (if now' < now + defaultTtlMs s then Some d else None) \<and>
   (defaultTtlMs s = 0 \<longrightarrow> cacheGet (cacheSet s now key d) now key = None) \<and>
   (defaultTtlMs s = 60 * 60 * 1000 \<longrightarrow> cacheGet (cacheSet s now key d) now key = Some d) \<and>
   cache (cacheSet s now key d) key = Some \<lparr>expiresAtMs = now + defaultTtlMs s, data = d\<rparr>"
  by (auto simp: cacheGet_def cacheSet_def split: option.splits)

theorem cache_get_after_set_witness:
  "defaultTtlMs sampleService = 60 * 60 * 1000 \<and>
   cacheGet (cacheSet sampleService 1000 ''ABC'' [rec_oct]) 1000 ''ABC'' = Some [rec_oct] \<and>
   defaultTtlMs (sampleService\<lparr>defaultTtlMs := 0\<rparr>) = 0 \<and>
   cacheGet (cacheSet (sampleService\<lparr>defaultTtlMs := 0\<rparr>) 1000 ''ABC'' [rec_oct]) 1000 ''ABC'' = None \<and>
   cache (cacheSet sampleService 1000 ''ABC'' [rec_oct]) ''ABC'' =
     Some \<lparr>expiresAtMs = 3601000, data = [rec_oct]\<rparr> \<and>
   cacheGet (cacheSet sampleService 1000 ''ABC'' [rec_oct]) 3601000 ''ABC'' = None"
proof -
  have a: "defaultTtlMs sampleService = 60 * 60 * 1000"
    by (simp add: sampleService_def newService_def)
  have b: "defaultTtlMs (sampleService\<lparr>defaultTtlMs := 0\<rparr>) = 0" by simp
  note t1 = cache_get_after_set [where s = sampleService and now = 1000 and key = "''ABC''"
      and d = "[rec_oct]" and now' = 3601000]
  note t0 = cache_get_after_set [where s = "sampleService\<lparr>defaultTtlMs := 0\<rparr>" and now = 1000
      and key = "''ABC''" and d = "[rec_oct]" and now' = 1000]
  have 1: "cacheGet (cacheSet sampleService 1000 ''ABC'' [rec_oct]) 1000 ''ABC'' = Some [rec_oct]"
    using t1 a by blast
  have 2: "cacheGet (cacheSet (sampleService\<lparr>defaultTtlMs := 0\<rparr>) 1000 ''ABC'' [rec_oct]) 1000 ''ABC'' = None"
    using t0 b by blast
  have 3: "cache (cacheSet sampleService 1000 ''ABC'' [rec_oct]) ''ABC'' =
     Some \<lparr>expiresAtMs = 3601000, data = [rec_oct]\<rparr>"
    using t1 by (simp add: a)
  have 4: "cacheGet (cacheSet sampleService 1000 ''ABC'' [rec_oct]) 3601000 ''ABC'' = None"
    using t1 by (simp add: a)
  from a b 1 2 3 4 show ?thesis by blast
qed

section \<open>The single-ticker pipeline: theorems\<close>

text \<open>
  C9. A request whose ticker has a fresh cache entry, with an output directory, returns the
  cached history and leaves the state as it was except for the file of that ticker in that
  directory, which gets the encoding of the cached history, whatever the file held before
  (when creating the directory or writing throws, nothing changes). The existing file, the
  upstream and the merge take no part.
\<close>

theorem cache_hit_saves_cached:
  assumes "symbol \<noteq> []"
    and "cache s (toUpperCase P symbol) = Some entry"
    and "dateNow w < expiresAtMs entry"
    and "outputDir = Some dir" and "dir \<noteq> []"
  shows "getDividendHistory P w s symbol outputDir =
     (Inr (data entry),
      if writeFails w (pathJoin P [pathJoin P [cwd P, dir],
                        toLowerCase P (toUpperCase P symbol) @ ''_dividends.csv''])
      then s
      else s\<lparr>files := (files s)
             (pathJoin P [pathJoin P [cwd P, dir],
                toLowerCase P (toUpperCase P symbol) @ ''_dividends.csv'']
              \<mapsto> csvContent (data entry))\<rparr>)"
  using assms
  by (simp add: getDividendHistory_def cacheGet_def saveToCsv_def filePath_def baseDir_def Let_def)

lemma extractDividends_Nil:
  "extractDividends P doc = [] \<longleftrightarrow> primaryExtraction P doc = [] \<and> fallbackExtraction P doc = []"
  by (simp add: extractDividends_def Let_def)

lemma getDividendHistory_miss:
  assumes "symbol \<noteq> []" and "cacheGet s (dateNow w) (toUpperCase P symbol) = None"
  shows "fst (getDividendHistory P w s symbol outputDir) =
     (case axiosGet w (dividendUrl P symbol) of
        Inl err \<Rightarrow> Inl (upstreamException symbol err)
      | Inr doc \<Rightarrow>
          if extractDividends P doc = []
          then Inl (InternalServerErrorException extractionFailedMessage)
          else Inr (if csvExists P s (toUpperCase P symbol) outputDir
                    then mergeDividends (localeCompare P)
                           (readExistingCsv P s (toUpperCase P symbol) outputDir)
                           (extractDividends P doc)
                    else Array_sort (byExDateDesc (localeCompare P)) (extractDividends P doc)))"
  using assms
  by (simp add: getDividendHistory_def Let_def split: sum.splits)

text \<open>
  C7. For a request that is not answered from the cache: the request fails with the
  not-found exception exactly when the upstream answers with status 404; with the
  extraction failure when a page was fetched and neither the first nor the second selection
  gives a record, and a fetched page that gives a record does not fail; and with the
  upstream error, carrying the message of the failure, for every other failure of fetching.
\<close>

theorem harvest_failures:
  assumes "symbol \<noteq> []" and "cacheGet s (dateNow w) (toUpperCase P symbol) = None"
  shows
   "(\<forall>err. axiosGet w (dividendUrl P symbol) = Inl err \<and> status err = Some 404 \<longrightarrow>
       fst (getDividendHistory P w s symbol outputDir) =
         Inl (BadRequestException (notFoundMessage symbol))) \<and>
    (fst (getDividendHistory P w s symbol outputDir) =
         Inl (BadRequestException (notFoundMessage symbol)) \<longrightarrow>
       (\<exists>err. axiosGet w (dividendUrl P symbol) = Inl err \<and> status err = Some 404)) \<and>
    (\<forall>err. axiosGet w (dividendUrl P symbol) = Inl err \<and> status err \<noteq> Some 404 \<longrightarrow>
       fst (getDividendHistory P w s symbol outputDir) =
         Inl (InternalServerErrorException
           (if message err \<noteq> [] then message err
            else ''Failed to fetch dividend history from stockanalysis.com''))) \<and>
    (\<forall>doc. axiosGet w (dividendUrl P symbol) = Inr doc \<longrightarrow>
       (primaryExtraction P doc = [] \<and> fallbackExtraction P doc = [] \<longrightarrow>
          fst (getDividendHistory P w s symbol outputDir) =
            Inl (InternalServerErrorException extractionFailedMessage)) \<and>
       (\<not> (primaryExtraction P doc = [] \<and> fallbackExtraction P doc = []) \<longrightarrow>
          (\<exists>history. fst (getDividendHistory P w s symbol outputDir) = Inr history)))"
  unfolding getDividendHistory_miss [OF assms]
  by (auto simp: upstreamException_def extractDividends_Nil split: sum.splits if_splits)

section \<open>The batch: theorems\<close>

lemma processLoop_Cons_fst:
  "fst (processLoop P ws i s outputDir (t # ts)) =
     outcomeOf t (fst (getDividendHistory P (ws i) s t (Some outputDir))) #
     fst (processLoop P ws (Suc i) (snd (getDividendHistory P (ws i) s t (Some outputDir)))
            outputDir ts)"
  by (simp split: prod.splits)

lemma processLoop_Cons_snd:
  "snd (processLoop P ws i s outputDir (t # ts)) =
     snd (processLoop P ws (Suc i) (snd (getDividendHistory P (ws i) s t (Some outputDir)))
            outputDir ts)"
  by (simp split: prod.splits)

lemma ticker_outcomeOf: "ticker (outcomeOf t r) = t"
  by (simp add: outcomeOf_def split: sum.splits)

lemma processLoop_tickers:
  "map ticker (fst (processLoop P ws i s outputDir ts)) = ts"
proof (induction ts arbitrary: i s)
  case Nil
  then show ?case by simp
next
  case (Cons t ts)
  show ?case
    unfolding processLoop_Cons_fst by (simp add: ticker_outcomeOf Cons.IH)
qed

lemma processLoop_nth:
  "i < length ts \<Longrightarrow>
   fst (processLoop P ws k s outputDir ts) ! i =
     outcomeOf (ts ! i)
       (fst (getDividendHistory P (ws (k + i))
          (snd (processLoop P ws k s outputDir (take i ts))) (ts ! i) (Some outputDir)))"
proof (induction ts arbitrary: i k s)
  case Nil
  then show ?case by simp
next
  case (Cons t ts)
  show ?case
  proof (cases i)
    case 0
    then show ?thesis unfolding processLoop_Cons_fst by simp
  next
    case (Suc j)
    with Cons.prems have j: "j < length ts" by simp
    have "take i (t # ts) = t # take j ts" using Suc by simp
    then show ?thesis
      unfolding processLoop_Cons_fst
      using Cons.IH [OF j, of "Suc k"] Suc
      by (simp add: processLoop_Cons_snd del: processLoop.simps)
  qed
qed

lemma outcomeOf_cases:
  "(\<forall>history. r = Inr history \<longrightarrow> outcomeOf t r = \<lparr>ticker = t, success = True, error = None\<rparr>) \<and>
   (\<forall>e. r = Inl e \<longrightarrow> ticker (outcomeOf t r) = t \<and> \<not> success (outcomeOf t r) \<and>
      (\<exists>m. error (outcomeOf t r) = Some m \<and> m \<noteq> []))"
  by (auto simp: outcomeOf_def)

text \<open>
  C6. When the manifest can be read, the batch returns outcomes, never an exception: one
  outcome per ticker of the manifest, in the order of the manifest. The outcome at a position
  is that of the request of its ticker in the state the earlier tickers left: success without
  an error when the request returns, failure with an error that is not empty when the
  request throws; the tickers after a failure are processed all the same.
\<close>

theorem batch_outcomes:
  assumes "readTickersFromCsv P s csvFilePath = Inr tickers"
  shows "\<exists>results s'.
     processTickersFromCsv P ws s csvFilePath outputDir = (Inr results, s') \<and>
     map ticker results = tickers \<and>
     (\<forall>i < length tickers.
        (\<forall>history. fst (getDividendHistory P (ws i)
              (snd (processLoop P ws 0 s outputDir (take i tickers)))
              (tickers ! i) (Some outputDir)) = Inr history \<longrightarrow>
           results ! i = \<lparr>ticker = tickers ! i, success = True, error = None\<rparr>) \<and>
        (\<forall>e. fst (getDividendHistory P (ws i)
              (snd (processLoop P ws 0 s outputDir (take i tickers)))
              (tickers ! i) (Some outputDir)) = Inl e \<longrightarrow>
           ticker (results ! i) = tickers ! i \<and> \<not> success (results ! i) \<and>
           (\<exists>m. error (results ! i) = Some m \<and> m \<noteq> [])))"
proof -
  obtain results s' where l: "processLoop P ws 0 s outputDir tickers = (results, s')"
    by (cases "processLoop P ws 0 s outputDir tickers")
  have p: "processTickersFromCsv P ws s csvFilePath outputDir = (Inr results, s')"
    by (simp add: processTickersFromCsv_def assms l)
  have m: "map ticker results = tickers"
    using processLoop_tickers [of P ws 0 s outputDir tickers] by (simp add: l)
  have n: "results ! i = outcomeOf (tickers ! i)
       (fst (getDividendHistory P (ws i)
          (snd (processLoop P ws 0 s outputDir (take i tickers))) (tickers ! i) (Some outputDir)))"
    if "i < length tickers" for i
    using processLoop_nth [OF that, of P ws 0 s outputDir] by (simp add: l)
  show ?thesis
    using p m n outcomeOf_cases by (intro exI [of _ results] exI [of _ s']) simp
qed

section \<open>Runs on the sample platform\<close>

lemma upper_abc: "toUpperCase samplePlatform ''abc'' = ''ABC''"
  by (simp add: platform_eval)

lemma lower_ABC: "toLowerCase samplePlatform ''ABC'' = ''abc''"
  by (simp add: platform_eval)

theorem cache_hit_saves_cached_witness:
  "''abc'' \<noteq> [] \<and>
   cache cachedService (toUpperCase samplePlatform ''abc'') =
     Some \<lparr>expiresAtMs = 3600500, data = [rec_oct]\<rparr> \<and>
   dateNow sampleWorld < expiresAtMs \<lparr>expiresAtMs = 3600500, data = [rec_oct]\<rparr> \<and>
   ''out'' \<noteq> [] \<and>
   getDividendHistory samplePlatform sampleWorld cachedService ''abc'' (Some ''out'') =
     (Inr [rec_oct],
      cachedService\<lparr>files := (files cachedService)
        (''/app/out/abc_dividends.csv'' \<mapsto> csvContent [rec_oct])\<rparr>)"
proof -
  have a: "cache cachedService (toUpperCase samplePlatform ''abc'') =
     Some \<lparr>expiresAtMs = 3600500, data = [rec_oct]\<rparr>"
    by (simp add: upper_abc cachedService_def cacheSet_def sampleService_def newService_def)
  have b: "dateNow sampleWorld < expiresAtMs \<lparr>expiresAtMs = 3600500, data = [rec_oct]\<rparr>"
    by (simp add: sampleWorld_def)
  have p: "pathJoin samplePlatform [pathJoin samplePlatform [cwd samplePlatform, ''out''],
        toLowerCase samplePlatform (toUpperCase samplePlatform ''abc'') @ ''_dividends.csv''] =
      ''/app/out/abc_dividends.csv''"
    by (simp add: upper_abc lower_ABC) (simp add: samplePlatform_def)
  have w: "\<not> writeFails sampleWorld ''/app/out/abc_dividends.csv''"
    by (simp add: sampleWorld_def)
  have "getDividendHistory samplePlatform sampleWorld cachedService ''abc'' (Some ''out'') =
     (Inr [rec_oct],
      cachedService\<lparr>files := (files cachedService)
        (''/app/out/abc_dividends.csv'' \<mapsto> csvContent [rec_oct])\<rparr>)"
    using cache_hit_saves_cached [OF _ a b refl, of "''out''"] w
    unfolding p by simp
  with a b show ?thesis by simp
qed

lemma extract_samplePage: "extractDividends samplePlatform samplePage = [rec_sample]"
  by (simp add: extractDividends_def primaryExtraction_def primaryRow_def normalizedRecord_def
      samplePage_def rec_sample_def samplePlatform_def date_eval)

lemma extract_emptyPage:
  "primaryExtraction samplePlatform emptyPage = [] \<and> fallbackExtraction samplePlatform emptyPage = []"
  by (simp add: primaryExtraction_def fallbackExtraction_def fallbackRow_def emptyPage_def)

lemma sampleService_miss: "cacheGet sampleService now key = None"
  by (simp add: cacheGet_def sampleService_def newService_def)

lemma url_eval:
  "dividendUrl samplePlatform ''bbb'' = ''https://stockanalysis.com/etf/bbb/dividend/''"
  "dividendUrl samplePlatform ''slow'' = ''https://stockanalysis.com/etf/slow/dividend/''"
  "dividendUrl samplePlatform ''none'' = ''https://stockanalysis.com/etf/none/dividend/''"
  "dividendUrl samplePlatform ''abc'' = ''https://stockanalysis.com/etf/abc/dividend/''"
  by (simp_all add: dividendUrl_def platform_eval)

lemma upstream_eval:
  "axiosGet sampleWorld ''https://stockanalysis.com/etf/bbb/dividend/'' =
     Inl \<lparr>status = Some 404, message = ''Request failed with status code 404''\<rparr>"
  "axiosGet sampleWorld ''https://stockanalysis.com/etf/slow/dividend/'' =
     Inl \<lparr>status = None, message = ''timeout of 15000ms exceeded''\<rparr>"
  "axiosGet sampleWorld ''https://stockanalysis.com/etf/none/dividend/'' = Inr emptyPage"
  "axiosGet sampleWorld ''https://stockanalysis.com/etf/abc/dividend/'' = Inr samplePage"
  by (simp_all add: sampleWorld_def sampleUpstream_def)

theorem harvest_failures_witness:
  "''bbb'' \<noteq> [] \<and>
   cacheGet sampleService (dateNow sampleWorld) (toUpperCase samplePlatform ''bbb'') = None \<and>
   fst (getDividendHistory samplePlatform sampleWorld sampleService ''bbb'' None) =
     Inl (BadRequestException (notFoundMessage ''bbb'')) \<and>
   fst (getDividendHistory samplePlatform sampleWorld sampleService ''slow'' None) =
     Inl (InternalServerErrorException ''timeout of 15000ms exceeded'') \<and>
   fst (getDividendHistory samplePlatform sampleWorld sampleService ''none'' None) =
     Inl (InternalServerErrorException extractionFailedMessage) \<and>
   (\<exists>history. fst (getDividendHistory samplePlatform sampleWorld sampleService ''abc'' None) =
     Inr history)"
proof -
  note m = sampleService_miss
  have p: "\<not> (primaryExtraction samplePlatform samplePage = [] \<and>
              fallbackExtraction samplePlatform samplePage = [])"
    using extract_samplePage extractDividends_Nil [of samplePlatform samplePage] by simp
  have 1: "fst (getDividendHistory samplePlatform sampleWorld sampleService ''bbb'' None) =
     Inl (BadRequestException (notFoundMessage ''bbb''))"
    using harvest_failures [where symbol = "''bbb''" and P = samplePlatform and w = sampleWorld
        and s = sampleService and outputDir = None, OF _ m]
    by (simp add: url_eval upstream_eval)
  have 2: "fst (getDividendHistory samplePlatform sampleWorld sampleService ''slow'' None) =
     Inl (InternalServerErrorException ''timeout of 15000ms exceeded'')"
    using harvest_failures [where symbol = "''slow''" and P = samplePlatform and w = sampleWorld
        and s = sampleService and outputDir = None, OF _ m]
    by (simp add: url_eval upstream_eval)
  have 3: "fst (getDividendHistory samplePlatform sampleWorld sampleService ''none'' None) =
     Inl (InternalServerErrorException extractionFailedMessage)"
    using harvest_failures [where symbol = "''none''" and P = samplePlatform and w = sampleWorld
        and s = sampleService and outputDir = None, OF _ m] extract_emptyPage
    by (simp add: url_eval upstream_eval)
  have 4: "\<exists>history. fst (getDividendHistory samplePlatform sampleWorld sampleService ''abc'' None) =
     Inr history"
    using harvest_failures [where symbol = "''abc''" and P = samplePlatform and w = sampleWorld
        and s = sampleService and outputDir = None, OF _ m] p
    by (simp add: url_eval upstream_eval)
  from m 1 2 3 4 show ?thesis by simp
qed

lemma sample_manifest:
  "readTickersFromCsv samplePlatform sampleService ''tickers.csv'' = Inr [''AAA'', ''BBB'', ''CCC'']"
  by (simp add: readTickersFromCsv_def sampleService_def newService_def samplePlatform_def
      trim_def isWhiteSpace_def newline_def comma_def Let_def)

lemma url_eval2:
  "dividendUrl samplePlatform ''AAA'' = ''https://stockanalysis.com/etf/aaa/dividend/''"
  "dividendUrl samplePlatform ''BBB'' = ''https://stockanalysis.com/etf/bbb/dividend/''"
  "dividendUrl samplePlatform ''CCC'' = ''https://stockanalysis.com/etf/ccc/dividend/''"
  by (simp_all add: dividendUrl_def platform_eval)

lemma upstream_eval2:
  "axiosGet sampleWorld ''https://stockanalysis.com/etf/aaa/dividend/'' = Inr samplePage"
  "axiosGet sampleWorld ''https://stockanalysis.com/etf/ccc/dividend/'' = Inr samplePage"
  by (simp_all add: sampleWorld_def sampleUpstream_def)

lemma upper_eval: "toUpperCase samplePlatform ''AAA'' = ''AAA''"
  "toUpperCase samplePlatform ''BBB'' = ''BBB''" "toUpperCase samplePlatform ''CCC'' = ''CCC''"
  by (simp_all add: platform_eval)

lemma path_eval:
  "filePath samplePlatform ''AAA'' (Some ''out'') = ''/app/out/aaa_dividends.csv''"
  "filePath samplePlatform ''CCC'' (Some ''out'') = ''/app/out/ccc_dividends.csv''"
  by (simp_all add: filePath_def baseDir_def platform_eval)

lemma sort_single: "Array_sort cmp [x] = [x]"
  by (simp add: Array_sort_def)

lemma step_AAA:
  "getDividendHistory samplePlatform sampleWorld sampleService ''AAA'' (Some ''out'') =
     (Inr [rec_sample], afterAAA)"
  by (simp add: getDividendHistory_def upper_eval sampleService_miss url_eval2 upstream_eval2
      extract_samplePage csvExists_def path_eval saveToCsv_def sort_single afterAAA_def Let_def)
    (simp add: sampleService_def newService_def sampleWorld_def)

lemma step_BBB:
  "getDividendHistory samplePlatform sampleWorld afterAAA ''BBB'' (Some ''out'') =
     (Inl (BadRequestException (notFoundMessage ''BBB'')), afterAAA)"
proof -
  have c: "cacheGet afterAAA (dateNow sampleWorld) ''BBB'' = None"
    by (simp add: cacheGet_def afterAAA_def cacheSet_def sampleService_def newService_def)
  show ?thesis
    by (simp add: getDividendHistory_def upper_eval c url_eval2 upstream_eval upstreamException_def
      Let_def)
qed

lemma step_CCC:
  "fst (getDividendHistory samplePlatform sampleWorld afterAAA ''CCC'' (Some ''out'')) =
     Inr [rec_sample]"
proof -
  have c: "cacheGet afterAAA (dateNow sampleWorld) ''CCC'' = None"
    by (simp add: cacheGet_def afterAAA_def cacheSet_def sampleService_def newService_def)
  have e: "\<not> csvExists samplePlatform afterAAA ''CCC'' (Some ''out'')"
    by (simp add: csvExists_def path_eval afterAAA_def cacheSet_def sampleService_def newService_def)
  show ?thesis
    by (simp add: getDividendHistory_def upper_eval c url_eval2 upstream_eval2
      extract_samplePage e sort_single Let_def)
qed

lemma sample_batch:
  "fst (processTickersFromCsv samplePlatform (\<lambda>i. sampleWorld) sampleService ''tickers.csv'' ''out'') =
     Inr [\<lparr>ticker = ''AAA'', success = True, error = None\<rparr>,
          \<lparr>ticker = ''BBB'', success = False, error = Some (notFoundMessage ''BBB'')\<rparr>,
          \<lparr>ticker = ''CCC'', success = True, error = None\<rparr>]"
proof -
  obtain r3 s3 where 3: "getDividendHistory samplePlatform sampleWorld afterAAA ''CCC'' (Some ''out'')
      = (r3, s3)" by (cases "getDividendHistory samplePlatform sampleWorld afterAAA ''CCC'' (Some ''out'')")
  with step_CCC have r3: "r3 = Inr [rec_sample]" by simp
  have n: "notFoundMessage ''BBB'' \<noteq> []" by (simp add: notFoundMessage_def)
  show ?thesis
    by (simp add: processTickersFromCsv_def sample_manifest step_AAA step_BBB 3 r3 outcomeOf_def n)
qed

theorem batch_outcomes_witness:
  "readTickersFromCsv samplePlatform sampleService ''tickers.csv'' = Inr [''AAA'', ''BBB'', ''CCC''] \<and>
   (\<exists>results s'.
      processTickersFromCsv samplePlatform (\<lambda>i. sampleWorld) sampleService ''tickers.csv'' ''out'' =
        (Inr results, s') \<and>
      map ticker results = [''AAA'', ''BBB'', ''CCC''] \<and>
      results = [\<lparr>ticker = ''AAA'', success = True, error = None\<rparr>,
          \<lparr>ticker = ''BBB'', success = False, error = Some (notFoundMessage ''BBB'')\<rparr>,
          \<lparr>ticker = ''CCC'', success = True, error = None\<rparr>])"
proof -
  from batch_outcomes [OF sample_manifest, of "\<lambda>i. sampleWorld" "''out''"]
  obtain results s' where
    p: "processTickersFromCsv samplePlatform (\<lambda>i. sampleWorld) sampleService ''tickers.csv'' ''out'' =
        (Inr results, s')"
    and m: "map ticker results = [''AAA'', ''BBB'', ''CCC'']"
    by (elim exE conjE)
  from p sample_batch have "results = [\<lparr>ticker = ''AAA'', success = True, error = None\<rparr>,
          \<lparr>ticker = ''BBB'', success = False, error = Some (notFoundMessage ''BBB'')\<rparr>,
          \<lparr>ticker = ''CCC'', success = True, error = None\<rparr>]"
    by simp
  with p m sample_manifest show ?thesis
    by (intro conjI exI [of _ results] exI [of _ s']) assumption+
qed

end
